theory Spec2Isabelle
  imports Main
begin

section \<open>Shared vocabulary\<close>

text \<open>
  Python exceptions are values: every \<^verbatim>\<open>raise\<close>, failed \<^verbatim>\<open>assert\<close> and failing
  built-in operation of the modelled code is an \<open>Inl\<close> branch carrying the exception class.
\<close>

datatype error =
    TypeError
  | ValueError
  | IndexError
  | KeyError
  | AssertionError
  | NotImplementedError
  | AttributeError

section \<open>The trace stack (jax/core.py)\<close>

text \<open>
  \<^verbatim>\<open>MainTrace\<close> has the fields \<^verbatim>\<open>level\<close>, \<^verbatim>\<open>trace_type\<close> (a class object) and
  \<^verbatim>\<open>payload\<close> (the keyword arguments, a dictionary). Trace classes are named; the payload
  values are left polymorphic.
\<close>

datatype trace_type = EvalTrace | TraceClass string

record 'p MainTrace =
  level :: int
  trace_type :: trace_type
  payload :: "(string \<times> 'p) list"

record 'p TraceStack =
  stack :: "'p MainTrace list"
  dynamic :: "'p MainTrace"

text \<open>\<^verbatim>\<open>eval_trace = MainTrace(0, EvalTrace)\<close>, with no keyword argument.\<close>

definition eval_trace :: "'p MainTrace" where
  "eval_trace = \<lparr>level = 0, trace_type = EvalTrace, payload = []\<rparr>"

text \<open>\<^verbatim>\<open>TraceStack.__init__\<close>.\<close>

definition TraceStack_init :: "'p TraceStack" where
  "TraceStack_init = \<lparr>stack = [eval_trace], dynamic = eval_trace\<rparr>"

text \<open>\<^verbatim>\<open>next_level\<close> is \<^verbatim>\<open>len(self.stack)\<close>.\<close>

definition next_level :: "'p TraceStack \<Rightarrow> int" where
  "next_level s = int (length (stack s))"

text \<open>\<^verbatim>\<open>push\<close> is \<^verbatim>\<open>self.stack.append(main_trace)\<close>.\<close>

definition push :: "'p MainTrace \<Rightarrow> 'p TraceStack \<Rightarrow> 'p TraceStack" where
  "push main_trace s = s\<lparr>stack := stack s @ [main_trace]\<rparr>"

text \<open>
  \<^verbatim>\<open>pop\<close> is \<^verbatim>\<open>self.stack.pop()\<close>, whose result is dropped; \<^verbatim>\<open>list.pop\<close> raises
  \<^verbatim>\<open>IndexError\<close> on an empty list.
\<close>

definition pop :: "'p TraceStack \<Rightarrow> error + 'p TraceStack" where
  "pop s = (if stack s = [] then Inl IndexError else Inr (s\<lparr>stack := butlast (stack s)\<rparr>))"

section \<open>Arrays and abstract values (jax/core.py)\<close>

text \<open>Errors are threaded as in the Python: the first failing step decides.\<close>

definition err_bind :: "error + 'a \<Rightarrow> ('a \<Rightarrow> error + 'b) \<Rightarrow> error + 'b" where
  "err_bind m f = (case m of Inl e \<Rightarrow> Inl e | Inr x \<Rightarrow> f x)"

text \<open>
  An array value is its shape and its elements, addressed by index tuples; \<open>indices\<close>
  lists the index tuples of a shape in row-major order. An element is a number (an integer
  here, since only equality of elements is asked for) or the IEEE not-a-number, the one
  element that \<^verbatim>\<open>==\<close> does not relate to itself.
\<close>

datatype scalar = Num int | NaN

record 'a ndarray =
  shape :: "nat list"
  elem :: "nat list \<Rightarrow> 'a"

definition indices :: "nat list \<Rightarrow> nat list list" where
  "indices sh = product_lists (map (\<lambda>n. [0..<n]) sh)"

fun scalar_eq :: "scalar \<Rightarrow> scalar \<Rightarrow> bool" where
  "scalar_eq (Num a) (Num b) = (a = b)"
| "scalar_eq _ _ = False"

text \<open>\<^verbatim>\<open>(a == b).all()\<close> for two arrays of one shape.\<close>

definition all_eq :: "scalar ndarray \<Rightarrow> scalar ndarray \<Rightarrow> bool" where
  "all_eq a b = list_all (\<lambda>idx. scalar_eq (elem a idx) (elem b idx)) (indices (shape a))"

type_synonym dtype = string
type_synonym named_shape = "(string \<times> int) list"

text \<open>
  The abstract values of \<^verbatim>\<open>core.py\<close>. \<open>Bot\<close>, \<open>AbstractUnit\<close> and \<open>AbstractToken\<close> stand
  for the module's instances \<^verbatim>\<open>bot\<close>, \<^verbatim>\<open>abstract_unit\<close> and \<^verbatim>\<open>abstract_token\<close>.
  Dimension sizes are integers: \<^verbatim>\<open>_SPECIAL_DIMENSION_HANDLERS\<close> is empty in
  \<^verbatim>\<open>core.py\<close>, so every canonical dimension is a Python \<^verbatim>\<open>int\<close>. A named shape is the
  dictionary's item list in insertion order. A \<open>ConcreteArray\<close> stores its value; its
  shape is \<^verbatim>\<open>np.shape(val)\<close> and its named shape is empty, as its constructor passes none.
\<close>

datatype aval =
    Bot
  | AbstractUnit
  | AbstractToken
  | UnshapedArray dtype bool
  | DShapedArray "int list" dtype bool
  | ShapedArray "int list" dtype bool named_shape
  | ConcreteArray dtype "scalar ndarray" bool

datatype pyclass =
    CAbstractValue
  | CBot
  | CAbstractUnit
  | CAbstractToken
  | CUnshapedArray
  | CDShapedArray
  | CShapedArray
  | CConcreteArray

fun type_of :: "aval \<Rightarrow> pyclass" where
  "type_of Bot = CBot"
| "type_of AbstractUnit = CAbstractUnit"
| "type_of AbstractToken = CAbstractToken"
| "type_of (UnshapedArray _ _) = CUnshapedArray"
| "type_of (DShapedArray _ _ _) = CDShapedArray"
| "type_of (ShapedArray _ _ _ _) = CShapedArray"
| "type_of (ConcreteArray _ _ _) = CConcreteArray"

text \<open>The method resolution order of each class, from its \<^verbatim>\<open>class\<close> statement.\<close>

fun mro :: "pyclass \<Rightarrow> pyclass list" where
  "mro CAbstractValue = [CAbstractValue]"
| "mro CBot = [CBot, CAbstractValue]"
| "mro CAbstractUnit = [CAbstractUnit, CAbstractValue]"
| "mro CAbstractToken = [CAbstractToken, CAbstractValue]"
| "mro CUnshapedArray = [CUnshapedArray, CAbstractValue]"
| "mro CDShapedArray = [CDShapedArray, CUnshapedArray, CAbstractValue]"
| "mro CShapedArray = [CShapedArray, CUnshapedArray, CAbstractValue]"
| "mro CConcreteArray = [CConcreteArray, CShapedArray, CUnshapedArray, CAbstractValue]"

definition isinstance :: "aval \<Rightarrow> pyclass \<Rightarrow> bool" where
  "isinstance x c = (c \<in> set (mro (type_of x)))"

text \<open>
  Attribute access. \<^verbatim>\<open>UnshapedArray.shape\<close> is a property that raises \<^verbatim>\<open>TypeError\<close>
  (\<open>DShapedArray\<close> has its own \<^verbatim>\<open>shape\<close> slot); an attribute that a class does not have
  raises \<^verbatim>\<open>AttributeError\<close>.
\<close>

fun get_dtype :: "aval \<Rightarrow> error + dtype" where
  "get_dtype (UnshapedArray dt _) = Inr dt"
| "get_dtype (DShapedArray _ dt _) = Inr dt"
| "get_dtype (ShapedArray _ dt _ _) = Inr dt"
| "get_dtype (ConcreteArray dt _ _) = Inr dt"
| "get_dtype _ = Inl AttributeError"

fun get_weak_type :: "aval \<Rightarrow> error + bool" where
  "get_weak_type (UnshapedArray _ w) = Inr w"
| "get_weak_type (DShapedArray _ _ w) = Inr w"
| "get_weak_type (ShapedArray _ _ w _) = Inr w"
| "get_weak_type (ConcreteArray _ _ w) = Inr w"
| "get_weak_type _ = Inl AttributeError"

fun get_shape :: "aval \<Rightarrow> error + int list" where
  "get_shape (UnshapedArray _ _) = Inl TypeError"
| "get_shape (DShapedArray sh _ _) = Inr sh"
| "get_shape (ShapedArray sh _ _ _) = Inr sh"
| "get_shape (ConcreteArray _ val _) = Inr (map int (shape val))"
| "get_shape _ = Inl AttributeError"

fun get_named_shape :: "aval \<Rightarrow> error + named_shape" where
  "get_named_shape (ShapedArray _ _ _ ns) = Inr ns"
| "get_named_shape (ConcreteArray _ _ _) = Inr []"
| "get_named_shape _ = Inl AttributeError"

text \<open>
  \<^verbatim>\<open>symbolic_equal_dim\<close> with the integer handler is \<^verbatim>\<open>d1 == d2\<close>;
  \<^verbatim>\<open>symbolic_equal_shape\<close> compares the lengths and then the dimensions pairwise.
\<close>

definition symbolic_equal_dim :: "int \<Rightarrow> int \<Rightarrow> bool" where
  "symbolic_equal_dim d1 d2 = (d1 = d2)"

definition symbolic_equal_shape :: "int list \<Rightarrow> int list \<Rightarrow> bool" where
  "symbolic_equal_shape s1 s2 =
     (length s1 = length s2 \<and> list_all (\<lambda>(d1, d2). symbolic_equal_dim d1 d2) (zip s1 s2))"

text \<open>
  \<^verbatim>\<open>dict.setdefault\<close>: the stored value when the key is present, else the key is added
  (at the end of the insertion order) with the given value.
\<close>

definition setdefault :: "('k \<times> 'v) list \<Rightarrow> 'k \<Rightarrow> 'v \<Rightarrow> ('k \<times> 'v) list \<times> 'v" where
  "setdefault d k v = (case map_of d k of Some v' \<Rightarrow> (d, v') | None \<Rightarrow> (d @ [(k, v)], v))"

text \<open>
  \<^verbatim>\<open>join_named_shapes\<close>: the inner loop over the items of one named shape, the outer loop
  over the named shapes given.
\<close>

fun join_items :: "named_shape \<Rightarrow> (string \<times> int) list \<Rightarrow> error + named_shape" where
  "join_items result [] = Inr result"
| "join_items result ((name, sz) # items) =
     (case setdefault result name sz of
        (result', v) \<Rightarrow> if v \<noteq> sz then Inl TypeError else join_items result' items)"

fun join_dicts :: "named_shape \<Rightarrow> named_shape list \<Rightarrow> error + named_shape" where
  "join_dicts result [] = Inr result"
| "join_dicts result (ns # rest) =
     (case join_items result ns of Inl e \<Rightarrow> Inl e | Inr result' \<Rightarrow> join_dicts result' rest)"

definition join_named_shapes :: "named_shape list \<Rightarrow> error + named_shape" where
  "join_named_shapes named_shapes = join_dicts [] named_shapes"

text \<open>Python's \<^verbatim>\<open>==\<close> on dictionaries: the same keys with the same values, in any order.\<close>

definition dict_eq :: "('k \<times> 'v) list \<Rightarrow> ('k \<times> 'v) list \<Rightarrow> bool" where
  "dict_eq a b = list_all (\<lambda>k. map_of a k = map_of b k) (map fst a @ map fst b)"

text \<open>
  \<^verbatim>\<open>__eq__\<close>, by the class of the left operand. The three singletons have no
  \<^verbatim>\<open>__eq__\<close> and compare by identity. Every array class first asks for
  \<^verbatim>\<open>type(self) is type(other)\<close>.
\<close>

fun aval_eq :: "aval \<Rightarrow> aval \<Rightarrow> bool" where
  "aval_eq Bot other = (other = Bot)"
| "aval_eq AbstractUnit other = (other = AbstractUnit)"
| "aval_eq AbstractToken other = (other = AbstractToken)"
| "aval_eq (UnshapedArray dt w) (UnshapedArray dt' w') = (dt = dt' \<and> w = w')"
| "aval_eq (UnshapedArray dt w) _ = False"
| "aval_eq (DShapedArray sh dt w) (DShapedArray sh' dt' w') = (dt = dt' \<and> sh = sh' \<and> w = w')"
| "aval_eq (DShapedArray sh dt w) _ = False"
| "aval_eq (ShapedArray sh dt w ns) (ShapedArray sh' dt' w' ns') =
     (dt = dt' \<and> sh = sh' \<and> w = w' \<and> dict_eq ns ns')"
| "aval_eq (ShapedArray sh dt w ns) _ = False"
| "aval_eq (ConcreteArray dt val w) (ConcreteArray dt' val' w') =
     (if dt = dt' \<and> shape val = shape val' \<and> w = w' then all_eq val val' else False)"
| "aval_eq (ConcreteArray dt val w) _ = False"

text \<open>
  \<^verbatim>\<open>ShapedArray.update\<close>: an argument left out (\<^verbatim>\<open>None\<close>) keeps the field of \<open>self\<close>.
\<close>

definition ShapedArray_update ::
  "int list \<Rightarrow> dtype \<Rightarrow> bool \<Rightarrow> named_shape \<Rightarrow>
   int list option \<Rightarrow> dtype option \<Rightarrow> bool option \<Rightarrow> named_shape option \<Rightarrow> aval" where
  "ShapedArray_update sh dt w ns shape' dtype' weak_type' named_shape' =
     ShapedArray (case shape' of None \<Rightarrow> sh | Some s \<Rightarrow> s)
                 (case dtype' of None \<Rightarrow> dt | Some d \<Rightarrow> d)
                 (case weak_type' of None \<Rightarrow> w | Some b \<Rightarrow> b)
                 (case named_shape' of None \<Rightarrow> ns | Some n \<Rightarrow> n)"

text \<open>\<^verbatim>\<open>UnshapedArray.join\<close>, inherited by \<open>DShapedArray\<close>.\<close>

definition UnshapedArray_join :: "aval \<Rightarrow> aval \<Rightarrow> error + aval" where
  "UnshapedArray_join self other =
     err_bind (get_dtype self) (\<lambda>sd. err_bind (get_dtype other) (\<lambda>od.
       if sd = od then
         err_bind (get_weak_type self) (\<lambda>sw. err_bind (get_weak_type other) (\<lambda>ow.
           if sw = ow then Inr self else Inr (UnshapedArray sd False)))
       else Inl TypeError))"

text \<open>\<^verbatim>\<open>ShapedArray.join\<close>; \<open>self\<close> is a \<open>ShapedArray\<close> proper.\<close>

fun ShapedArray_join :: "aval \<Rightarrow> aval \<Rightarrow> error + aval" where
  "ShapedArray_join (ShapedArray sh dt w ns) other =
     err_bind (get_shape other) (\<lambda>osh.
     err_bind (if symbolic_equal_shape sh osh
               then err_bind (get_dtype other) (\<lambda>od. Inr (dt = od)) else Inr False) (\<lambda>c1.
       if c1 then
         err_bind (get_weak_type other) (\<lambda>ow.
         err_bind (get_named_shape other) (\<lambda>ons.
         err_bind (join_named_shapes [ns, ons]) (\<lambda>named_shape.
           Inr (ShapedArray_update sh dt w ns None None (Some (w \<and> ow)) (Some named_shape)))))
       else
         err_bind (get_dtype other) (\<lambda>od.
           if dt = od then Inr (UnshapedArray dt False) else Inl TypeError)))"
| "ShapedArray_join _ other = Inl AttributeError"

text \<open>\<^verbatim>\<open>ConcreteArray.join\<close>.\<close>

fun ConcreteArray_join :: "aval \<Rightarrow> aval \<Rightarrow> error + aval" where
  "ConcreteArray_join (ConcreteArray dt val w) other =
     (if aval_eq (ConcreteArray dt val w) other then Inr (ConcreteArray dt val w)
      else
        err_bind (get_shape other) (\<lambda>osh.
        err_bind (if map int (shape val) = osh
                  then err_bind (get_dtype other) (\<lambda>od. Inr (dt = od)) else Inr False) (\<lambda>c1.
          if c1 then
            err_bind (get_weak_type other) (\<lambda>ow.
            err_bind (get_named_shape other) (\<lambda>ons.
            err_bind (join_named_shapes [[], ons]) (\<lambda>named_shape.
              Inr (ShapedArray (map int (shape val)) dt (w \<and> ow) named_shape))))
          else
            err_bind (get_dtype other) (\<lambda>od.
              if dt = od then
                err_bind (get_weak_type other) (\<lambda>ow. Inr (UnshapedArray dt (w \<and> ow)))
              else Inl TypeError))))"
| "ConcreteArray_join _ other = Inl AttributeError"

text \<open>
  \<^verbatim>\<open>self.join(other)\<close>, dispatched on the class of \<open>self\<close>. \<open>Bot\<close> inherits
  \<^verbatim>\<open>AbstractValue.join\<close>, which raises \<^verbatim>\<open>NotImplementedError\<close>. The flag is
  \<^verbatim>\<open>config.jax_enable_checks\<close>, read by \<^verbatim>\<open>AbstractUnit.join\<close>.
\<close>

fun join :: "bool \<Rightarrow> aval \<Rightarrow> aval \<Rightarrow> error + aval" where
  "join checks Bot other = Inl NotImplementedError"
| "join checks AbstractUnit other =
     (if checks \<and> other \<noteq> AbstractUnit then Inl AssertionError else Inr AbstractUnit)"
| "join checks AbstractToken other =
     (if isinstance other CAbstractToken then Inr AbstractToken else Inl AssertionError)"
| "join checks (UnshapedArray dt w) other = UnshapedArray_join (UnshapedArray dt w) other"
| "join checks (DShapedArray sh dt w) other = UnshapedArray_join (DShapedArray sh dt w) other"
| "join checks (ShapedArray sh dt w ns) other = ShapedArray_join (ShapedArray sh dt w ns) other"
| "join checks (ConcreteArray dt val w) other = ConcreteArray_join (ConcreteArray dt val w) other"

text \<open>\<^verbatim>\<open>lattice_join\<close>; both arguments are optional.\<close>

fun lattice_join :: "bool \<Rightarrow> aval option \<Rightarrow> aval option \<Rightarrow> error + aval option" where
  "lattice_join checks None y = Inr y"
| "lattice_join checks (Some x) None = Inr (Some x)"
| "lattice_join checks (Some x) (Some y) =
     (if isinstance x (type_of y) then err_bind (join checks y x) (\<lambda>r. Inr (Some r))
      else if isinstance y (type_of x) then err_bind (join checks x y) (\<lambda>r. Inr (Some r))
      else Inl TypeError)"







text \<open>
  An item list is consistent when every item carries the value stored under its key, that
  is, when no key occurs with two different values.
\<close>

definition consistent :: "('k \<times> 'v) list \<Rightarrow> bool" where
  "consistent xs = (\<forall>(k, v) \<in> set xs. map_of xs k = Some v)"

section \<open>Values and partial values (jax/core.py, jax/interpreters/partial_eval.py)\<close>

text \<open>
  The values that reach the tracing machinery: the unit \<^verbatim>\<open>core.unit\<close>, the token, an
  array, a tracer (which carries its abstract value) and any other Python object, for which
  no handler is registered. \<^verbatim>\<open>core.py\<close> itself registers handlers for \<^verbatim>\<open>Unit\<close> and
  \<^verbatim>\<open>Token\<close> in \<^verbatim>\<open>pytype_aval_mappings\<close>; the handlers for array types are registered
  by other modules, so the handler for arrays is a parameter \<open>h\<close>. Objects with a
  \<^verbatim>\<open>__jax_array__\<close> method and the symbolic \<^verbatim>\<open>Zero\<close> are not part of the value model.
  A value is never Python's \<^verbatim>\<open>None\<close>: \<^verbatim>\<open>core.Value\<close> denotes a tracer or a valid JAX
  type, and where the code uses \<^verbatim>\<open>None\<close> for "no value" the model uses \<open>option\<close>.
\<close>

datatype 'a jaxval =
    UnitV
  | TokenV
  | ArrayV "'a ndarray"
  | TracerV aval
  | OtherV

fun concrete_aval :: "('a ndarray \<Rightarrow> aval) \<Rightarrow> 'a jaxval \<Rightarrow> error + aval" where
  "concrete_aval h UnitV = Inr AbstractUnit"
| "concrete_aval h TokenV = Inr AbstractToken"
| "concrete_aval h (ArrayV a) = Inr (h a)"
| "concrete_aval h (TracerV av) = Inl TypeError"
| "concrete_aval h OtherV = Inl TypeError"

fun get_aval :: "('a ndarray \<Rightarrow> aval) \<Rightarrow> 'a jaxval \<Rightarrow> error + aval" where
  "get_aval h (TracerV av) = Inr av"
| "get_aval h x = concrete_aval h x"

text \<open>\<^verbatim>\<open>valid_jaxtype\<close>: \<^verbatim>\<open>concrete_aval\<close> does not raise \<^verbatim>\<open>TypeError\<close>.\<close>

definition valid_jaxtype :: "('a ndarray \<Rightarrow> aval) \<Rightarrow> 'a jaxval \<Rightarrow> bool" where
  "valid_jaxtype h x = (case concrete_aval h x of Inl e \<Rightarrow> False | Inr av \<Rightarrow> True)"

fun is_Tracer :: "'a jaxval \<Rightarrow> bool" where
  "is_Tracer (TracerV av) = True"
| "is_Tracer _ = False"

text \<open>
  A \<open>PartialVal\<close> is the pair \<^verbatim>\<open>(aval_opt, const)\<close>. \<^verbatim>\<open>__new__\<close> checks its argument
  only under \<^verbatim>\<open>config.jax_enable_checks\<close>: the constant is a tracer or a valid JAX type,
  and when the first component is an abstract value the constant's abstract value is
  \<^verbatim>\<open>abstract_unit\<close>. The first assertion, on the type of the first component, holds by
  typing.
\<close>

type_synonym 'a PartialVal = "aval option \<times> 'a jaxval"

definition PartialVal_new ::
  "bool \<Rightarrow> ('a ndarray \<Rightarrow> aval) \<Rightarrow> aval option \<times> 'a jaxval \<Rightarrow> error + 'a PartialVal" where
  "PartialVal_new checks h xs =
     (case xs of (pv, const) \<Rightarrow>
        if checks then
          if \<not> (is_Tracer const \<or> valid_jaxtype h const) then Inl AssertionError
          else (case pv of
                  None \<Rightarrow> Inr xs
                | Some a \<Rightarrow>
                    err_bind (get_aval h const) (\<lambda>av.
                      if aval_eq av AbstractUnit then Inr xs else Inl AssertionError))
        else Inr xs)"

definition known :: "bool \<Rightarrow> ('a ndarray \<Rightarrow> aval) \<Rightarrow> 'a jaxval \<Rightarrow> error + 'a PartialVal" where
  "known checks h const = PartialVal_new checks h (None, const)"

definition unknown :: "bool \<Rightarrow> ('a ndarray \<Rightarrow> aval) \<Rightarrow> aval \<Rightarrow> error + 'a PartialVal" where
  "unknown checks h aval = PartialVal_new checks h (Some aval, UnitV)"

definition is_known :: "'a PartialVal \<Rightarrow> bool" where
  "is_known self = (fst self = None)"

definition get_known :: "'a PartialVal \<Rightarrow> 'a jaxval option" where
  "get_known self = (if fst self = None then Some (snd self) else None)"

text \<open>
  \<^verbatim>\<open>PartialVal.get_aval\<close> returns \<^verbatim>\<open>get_aval(known)\<close> for a known value and the first
  component otherwise.
\<close>

definition PartialVal_get_aval ::
  "('a ndarray \<Rightarrow> aval) \<Rightarrow> 'a PartialVal \<Rightarrow> error + aval option" where
  "PartialVal_get_aval h self =
     (case get_known self of
        Some k \<Rightarrow> err_bind (get_aval h k) (\<lambda>av. Inr (Some av))
      | None \<Rightarrow> Inr (fst self))"

definition merge_with_known :: "'a PartialVal \<Rightarrow> 'a jaxval \<Rightarrow> 'a jaxval" where
  "merge_with_known self val = (case get_known self of Some k \<Rightarrow> k | None \<Rightarrow> val)"

section \<open>The Python markup reader (pyth/plugins/python/reader.py)\<close>

text \<open>
  The Python objects the reader meets: an \<^verbatim>\<open>int\<close> (which includes \<^verbatim>\<open>bool\<close>), a tuple or
  list, a string, a markup object (an instance of a subclass of \<^verbatim>\<open>_PythonBase\<close>, with its
  class, its \<^verbatim>\<open>properties\<close> and its \<^verbatim>\<open>content\<close>), and a document node as built by
  \<^verbatim>\<open>pythType(properties, content)\<close>. Property values are left polymorphic.
\<close>

datatype mclass = P | LE | L | T

datatype pythType = Paragraph | ListEntry | List | Text

datatype 'p pyobj =
    PyInt int
  | PySeq "'p pyobj list"
  | PyStr string
  | Markup mclass "(string \<times> 'p) list" "'p pyobj list"
  | Pyth pythType "(string \<times> 'p) list" "'p pyobj list"

datatype 'p document = Document "'p pyobj list"

text \<open>The class attribute \<^verbatim>\<open>pythType\<close> of each markup class.\<close>

fun pythType_of :: "mclass \<Rightarrow> pythType" where
  "pythType_of P = Paragraph"
| "pythType_of LE = ListEntry"
| "pythType_of L = List"
| "pythType_of T = Text"

fun is_PythonBase :: "'p pyobj \<Rightarrow> bool" where
  "is_PythonBase (Markup c props content) = True"
| "is_PythonBase _ = False"

text \<open>
  Modelled from the spec: the element classes of \<^verbatim>\<open>pyth/document.py\<close>, which is not
  among the sources. Each class names the type of its children (\<^verbatim>\<open>contentType\<close>): a
  \<open>Text\<close> holds strings, a \<open>Paragraph\<close> holds \<open>Text\<close> runs, a \<open>ListEntry\<close> holds
  paragraphs, a \<open>List\<close> holds list entries and a document holds paragraphs; \<open>List\<close> is a
  subclass of \<open>Paragraph\<close>. A constructor \<^verbatim>\<open>cls(properties, content)\<close> first stores the
  properties, raising \<^verbatim>\<open>ValueError\<close> on a key that is not among the class's
  \<^verbatim>\<open>validProperties\<close> (a parameter \<open>vp\<close> here), and then appends the content items one by
  one. \<^verbatim>\<open>append\<close> keeps an item that is an instance of the content type; otherwise, when
  the content type is itself an element class, it tries to wrap the item as
  \<^verbatim>\<open>contentType(content=[item])\<close>; when that raises \<^verbatim>\<open>TypeError\<close>, or the content type
  is the string type, it raises \<^verbatim>\<open>TypeError\<close>.
\<close>

datatype content_type = StrType | NodeType pythType

fun contentType :: "pythType \<Rightarrow> content_type" where
  "contentType Text = StrType"
| "contentType Paragraph = NodeType Text"
| "contentType ListEntry = NodeType Paragraph"
| "contentType List = NodeType ListEntry"

text \<open>
  Modelled from the spec: \<^verbatim>\<open>isinstance(item, self.contentType)\<close> for the classes of
  \<^verbatim>\<open>pyth/document.py\<close>.
\<close>

fun has_type :: "'p pyobj \<Rightarrow> content_type \<Rightarrow> bool" where
  "has_type (PyStr s) StrType = True"
| "has_type (Pyth t props content) (NodeType t') = (t = t' \<or> (t = List \<and> t' = Paragraph))"
| "has_type _ _ = False"

fun nesting :: "content_type \<Rightarrow> nat" where
  "nesting StrType = 0"
| "nesting (NodeType Text) = 1"
| "nesting (NodeType Paragraph) = 2"
| "nesting (NodeType ListEntry) = 3"
| "nesting (NodeType List) = 4"

text \<open>
  Modelled from the spec: \<^verbatim>\<open>append\<close> of \<^verbatim>\<open>pyth/document.py\<close>, for an element whose
  content type is \<open>ct\<close>: the item as it is stored, or \<^verbatim>\<open>TypeError\<close>. The wrapping
  element is built with no properties. \<open>nesting\<close> counts how many element classes lie
  between a content type and the string type.
\<close>

function append_item :: "content_type \<Rightarrow> 'p pyobj \<Rightarrow> error + 'p pyobj" where
  "append_item ct item =
     (if has_type item ct then Inr item
      else
        (case ct of
           StrType \<Rightarrow> Inl TypeError
         | NodeType t \<Rightarrow>
             (case append_item (contentType t) item of
                Inl e \<Rightarrow> Inl TypeError
              | Inr item' \<Rightarrow> Inr (Pyth t [] [item']))))"
  by pat_completeness auto
termination
proof (relation "measure (\<lambda>(ct, item). nesting ct)")
  show "wf (measure (\<lambda>(ct, item :: 'p pyobj). nesting ct))" by simp
next
  fix ct :: content_type and item :: "'p pyobj" and t :: pythType
  assume "ct = NodeType t"
  then show "((contentType t, item), (ct, item)) \<in> measure (\<lambda>(ct, item). nesting ct)"
    by (cases t) simp_all
qed

declare append_item.simps [simp del]

text \<open>
  Modelled from the spec: the loop \<^verbatim>\<open>for item in content: self.append(item)\<close> of the
  constructors of \<^verbatim>\<open>pyth/document.py\<close>.
\<close>

fun append_all :: "content_type \<Rightarrow> 'p pyobj list \<Rightarrow> error + 'p pyobj list" where
  "append_all ct [] = Inr []"
| "append_all ct (item # rest) =
     (case append_item ct item of
        Inl e \<Rightarrow> Inl e
      | Inr item' \<Rightarrow>
          (case append_all ct rest of Inl e \<Rightarrow> Inl e | Inr rest' \<Rightarrow> Inr (item' # rest')))"

text \<open>
  Modelled from the spec: the constructor of an element class of \<^verbatim>\<open>pyth/document.py\<close>,
  and \<^verbatim>\<open>Document(content=...)\<close>.
\<close>

definition pyth_new ::
  "(pythType \<Rightarrow> string list) \<Rightarrow> pythType \<Rightarrow> (string \<times> 'p) list \<Rightarrow> 'p pyobj list \<Rightarrow> error + 'p pyobj" where
  "pyth_new vp t props content =
     (if \<not> list_all (\<lambda>kv. fst kv \<in> set (vp t)) props then Inl ValueError
      else (case append_all (contentType t) content of
              Inl e \<Rightarrow> Inl e
            | Inr content' \<Rightarrow> Inr (Pyth t props content')))"

definition Document_new :: "'p pyobj list \<Rightarrow> error + 'p document" where
  "Document_new content =
     (case append_all (NodeType Paragraph) content of
        Inl e \<Rightarrow> Inl e
      | Inr content' \<Rightarrow> Inr (Document content'))"

text \<open>
  \<^verbatim>\<open>_convert\<close> and \<^verbatim>\<open>toPyth\<close>, with \<open>convert_all\<close> for the list comprehension
  \<^verbatim>\<open>[_convert(c) for c in ...]\<close>. \<^verbatim>\<open>_PythonBase.toPyth\<close> converts the children and then
  calls the constructor; class \<open>T\<close> overrides it and hands its content to the constructor
  unconverted. \<open>toPyth\<close> takes the fields of \<open>self\<close>.
\<close>

fun convert :: "(pythType \<Rightarrow> string list) \<Rightarrow> 'p pyobj \<Rightarrow> error + 'p pyobj"
  and toPyth ::
    "(pythType \<Rightarrow> string list) \<Rightarrow> mclass \<Rightarrow> (string \<times> 'p) list \<Rightarrow> 'p pyobj list \<Rightarrow> error + 'p pyobj"
  and convert_all :: "(pythType \<Rightarrow> string list) \<Rightarrow> 'p pyobj list \<Rightarrow> error + 'p pyobj list" where
  "convert vp (Markup c props content) = toPyth vp c props content"
| "convert vp (PyInt i) = Inr (PyInt i)"
| "convert vp (PySeq xs) = Inr (PySeq xs)"
| "convert vp (PyStr s) = Inr (PyStr s)"
| "convert vp (Pyth t props content) = Inr (Pyth t props content)"
| "toPyth vp T props content = pyth_new vp Text props content"
| "toPyth vp P props content =
     (case convert_all vp content of
        Inl e \<Rightarrow> Inl e | Inr ys \<Rightarrow> pyth_new vp (pythType_of P) props ys)"
| "toPyth vp LE props content =
     (case convert_all vp content of
        Inl e \<Rightarrow> Inl e | Inr ys \<Rightarrow> pyth_new vp (pythType_of LE) props ys)"
| "toPyth vp L props content =
     (case convert_all vp content of
        Inl e \<Rightarrow> Inl e | Inr ys \<Rightarrow> pyth_new vp (pythType_of L) props ys)"
| "convert_all vp [] = Inr []"
| "convert_all vp (x # xs) =
     (case convert vp x of
        Inl e \<Rightarrow> Inl e
      | Inr y \<Rightarrow> (case convert_all vp xs of Inl e \<Rightarrow> Inl e | Inr ys \<Rightarrow> Inr (y # ys)))"

text \<open>\<^verbatim>\<open>PythonReader.read\<close>.\<close>

definition read :: "(pythType \<Rightarrow> string list) \<Rightarrow> 'p pyobj list \<Rightarrow> error + 'p document" where
  "read vp source =
     (case convert_all vp source of Inl e \<Rightarrow> Inl e | Inr content \<Rightarrow> Document_new content)"

text \<open>
  Python list indexing: a negative index counts from the end, an index out of range raises
  \<^verbatim>\<open>IndexError\<close>.
\<close>

definition py_index :: "'a list \<Rightarrow> int \<Rightarrow> error + 'a" where
  "py_index xs i =
     (if 0 \<le> i \<and> i < int (length xs) then Inr (xs ! nat i)
      else if - int (length xs) \<le> i \<and> i < 0 then Inr (xs ! nat (i + int (length xs)))
      else Inl IndexError)"

text \<open>
  \<^verbatim>\<open>_PythonBase.__getitem__\<close> mutates \<^verbatim>\<open>self.content\<close> and returns either \<open>self\<close> or
  an element of the content. The model takes the content before the call and returns the
  content after it together with the outcome; an exception keeps what was appended before
  it. The loop \<^verbatim>\<open>for i in item: self[i]\<close> is \<open>getitem_each\<close>. The item is a value of its
  own, not the content list of \<open>self\<close>.
\<close>

datatype 'p ret = Self | Item "'p pyobj"

fun getitem :: "'p pyobj list \<Rightarrow> 'p pyobj \<Rightarrow> 'p pyobj list \<times> (error + 'p ret)"
  and getitem_each :: "'p pyobj list \<Rightarrow> 'p pyobj list \<Rightarrow> 'p pyobj list \<times> error option" where
  "getitem content (PySeq items) =
     (case getitem_each content items of
        (content', Some e) \<Rightarrow> (content', Inl e)
      | (content', None) \<Rightarrow> (content', Inr Self))"
| "getitem content (PyInt i) =
     (case py_index content i of Inl e \<Rightarrow> (content, Inl e) | Inr x \<Rightarrow> (content, Inr (Item x)))"
| "getitem content (PyStr s) = (content @ [PyStr s], Inr Self)"
| "getitem content (Markup c props xs) = (content @ [Markup c props xs], Inr Self)"
| "getitem content (Pyth t props xs) = (content @ [Pyth t props xs], Inr Self)"
| "getitem_each content [] = (content, None)"
| "getitem_each content (i # rest) =
     (case getitem content i of
        (content', Inl e) \<Rightarrow> (content', Some e)
      | (content', Inr r) \<Rightarrow> getitem_each content' rest)"

text \<open>
  An item that is neither an \<^verbatim>\<open>int\<close> nor a tuple or list; the elements that a nest of
  tuples and lists holds, in order; and a nest that holds no \<^verbatim>\<open>int\<close>.
\<close>

fun plain :: "'p pyobj \<Rightarrow> bool" where
  "plain (PyInt i) = False"
| "plain (PySeq xs) = False"
| "plain _ = True"

fun leaves :: "'p pyobj \<Rightarrow> 'p pyobj list" where
  "leaves (PySeq xs) = concat (map leaves xs)"
| "leaves x = [x]"

fun int_free :: "'p pyobj \<Rightarrow> bool" where
  "int_free (PyInt i) = False"
| "int_free (PySeq xs) = list_all int_free xs"
| "int_free _ = True"

text \<open>The \<^verbatim>\<open>content\<close> attribute of a document.\<close>

fun content_of :: "'p document \<Rightarrow> 'p pyobj list" where
  "content_of (Document content) = content"

section \<open>The plaintext writer (pyth/plugins/plaintext/writer.py)\<close>

text \<open>
  The target is an in-memory text stream as \<^verbatim>\<open>StringIO()\<close> makes it: a buffer and a
  position. \<^verbatim>\<open>write\<close> overwrites from the position on (padding with NUL characters when
  the position lies behind the end) and does nothing for the empty string;
  \<^verbatim>\<open>truncate()\<close> cuts the buffer at the position; \<^verbatim>\<open>seek\<close> sets the position.
  Strings are HOL strings, that is, characters up to code point 255.
\<close>

record stream =
  buf :: string
  pos :: nat

definition StringIO :: stream where
  "StringIO = \<lparr>buf = [], pos = 0\<rparr>"

definition swrite :: "stream \<Rightarrow> string \<Rightarrow> stream" where
  "swrite st s =
     (if s = [] then st
      else let b = buf st @ replicate (pos st - length (buf st)) (CHR 0x00)
           in \<lparr>buf = take (pos st) b @ s @ drop (pos st + length s) b,
               pos = pos st + length s\<rparr>)"

definition truncate_stream :: "stream \<Rightarrow> stream" where
  "truncate_stream st = (if pos st < length (buf st) then st\<lparr>buf := take (pos st) (buf st)\<rparr> else st)"

definition seek :: "stream \<Rightarrow> nat \<Rightarrow> stream" where
  "seek st offset = st\<lparr>pos := offset\<rparr>"

text \<open>
  \<^verbatim>\<open>str.splitlines()\<close>: a line ends at a line feed, a carriage return (with the line feed
  that follows it, if any), a vertical tab, a form feed, a file, group or record separator
  or a next-line character; no empty line is reported after the last line break.
\<close>

definition is_linebreak :: "char \<Rightarrow> bool" where
  "is_linebreak c =
     (c \<in> set [CHR 0x0A, CHR 0x0B, CHR 0x0C, CHR 0x0D, CHR 0x1C, CHR 0x1D, CHR 0x1E, CHR 0x85])"

fun splitlines_from :: "string \<Rightarrow> string \<Rightarrow> string list" where
  "splitlines_from cur [] = (if cur = [] then [] else [cur])"
| "splitlines_from cur (c # cs) =
     (if c = CHR 0x0D then
        (case cs of
           [] \<Rightarrow> [cur]
         | c' # cs' \<Rightarrow>
             if c' = CHR 0x0A then cur # splitlines_from [] cs'
             else cur # splitlines_from [] (c' # cs'))
      else if is_linebreak c then cur # splitlines_from [] cs
      else splitlines_from (cur @ [c]) cs)"

definition splitlines :: "string \<Rightarrow> string list" where
  "splitlines s = splitlines_from [] s"

text \<open>
  The \<^verbatim>\<open>content\<close> attribute (markup objects and document nodes have one) and
  \<^verbatim>\<open>"".join(xs)\<close>, which raises \<^verbatim>\<open>TypeError\<close> on an item that is not a string.
\<close>

fun get_content :: "'p pyobj \<Rightarrow> error + 'p pyobj list" where
  "get_content (Markup c props content) = Inr content"
| "get_content (Pyth t props content) = Inr content"
| "get_content _ = Inl AttributeError"

fun str_join :: "'p pyobj list \<Rightarrow> error + string" where
  "str_join [] = Inr []"
| "str_join (PyStr s # rest) =
     (case str_join rest of Inl e \<Rightarrow> Inl e | Inr t \<Rightarrow> Inr (s @ t))"
| "str_join (_ # rest) = Inl TypeError"

text \<open>
  The writer object: the target, the indentation level (\<open>-1\<close> at the start) and the newline
  string. An exception ends the run; the state of the target at that moment is not kept.
\<close>

record writer =
  target :: stream
  indent :: int
  newline :: string

text \<open>The first loop of \<^verbatim>\<open>paragraph\<close>: one joined string for each text run.\<close>

fun collect_texts :: "'p pyobj list \<Rightarrow> error + string list" where
  "collect_texts [] = Inr []"
| "collect_texts (text # rest) =
     (case get_content text of
        Inl e \<Rightarrow> Inl e
      | Inr c \<Rightarrow>
          (case str_join c of
             Inl e \<Rightarrow> Inl e
           | Inr s \<Rightarrow>
               (case collect_texts rest of Inl e \<Rightarrow> Inl e | Inr ss \<Rightarrow> Inr (s # ss))))"

text \<open>\<^verbatim>\<open>"  " * self.indent\<close>: empty for a negative count.\<close>

definition indent_str :: "int \<Rightarrow> string" where
  "indent_str n = concat (replicate (nat n) ''  '')"

text \<open>The second loop of \<^verbatim>\<open>paragraph\<close>: four writes for each line.\<close>

fun write_lines :: "writer \<Rightarrow> string \<Rightarrow> string list \<Rightarrow> writer" where
  "write_lines w prefix [] = w"
| "write_lines w prefix (line # rest) =
     write_lines
       (w\<lparr>target :=
            swrite (swrite (swrite (swrite (target w) (indent_str (indent w))) prefix) line)
              (newline w)\<rparr>)
       (if prefix \<noteq> [] then ''  '' else prefix) rest"

definition "paragraph" :: "writer \<Rightarrow> 'p pyobj \<Rightarrow> string \<Rightarrow> error + writer" where
  "paragraph w para prefix =
     (case get_content para of
        Inl e \<Rightarrow> Inl e
      | Inr texts \<Rightarrow>
          (case collect_texts texts of
             Inl e \<Rightarrow> Inl e
           | Inr content \<Rightarrow> Inr (write_lines w prefix (splitlines (concat content)))))"

text \<open>
  \<^verbatim>\<open>self.paragraphDispatch[paragraph.__class__]\<close> knows \<open>List\<close> and \<open>Paragraph\<close>; any other
  class raises \<^verbatim>\<open>KeyError\<close>. \<open>list_handler\<close> is the method \<^verbatim>\<open>list\<close>, \<open>list_entries\<close> its
  loop over the entries and \<open>list_paragraphs\<close> its loop over the paragraphs of one entry,
  with the running index \<open>j\<close>.
\<close>

fun handler :: "writer \<Rightarrow> 'p pyobj \<Rightarrow> string \<Rightarrow> error + writer"
  and list_handler :: "writer \<Rightarrow> 'p pyobj list \<Rightarrow> error + writer"
  and list_entries :: "writer \<Rightarrow> 'p pyobj list \<Rightarrow> error + writer"
  and list_paragraphs :: "writer \<Rightarrow> nat \<Rightarrow> 'p pyobj list \<Rightarrow> error + writer" where
  "handler w (Pyth Paragraph props content) prefix =
     paragraph w (Pyth Paragraph props content) prefix"
| "handler w (Pyth List props content) prefix = list_handler w content"
| "handler w (Pyth ListEntry props content) prefix = Inl KeyError"
| "handler w (Pyth Text props content) prefix = Inl KeyError"
| "handler w (Markup c props content) prefix = Inl KeyError"
| "handler w (PyInt i) prefix = Inl KeyError"
| "handler w (PySeq xs) prefix = Inl KeyError"
| "handler w (PyStr s) prefix = Inl KeyError"
| "list_handler w entries =
     (case list_entries (w\<lparr>indent := indent w + 1\<rparr>) entries of
        Inl e \<Rightarrow> Inl e
      | Inr w' \<Rightarrow> Inr (w'\<lparr>indent := indent w' - 1\<rparr>))"
| "list_entries w [] = Inr w"
| "list_entries w (Markup c props ps # rest) =
     (case list_paragraphs w 0 ps of Inl e \<Rightarrow> Inl e | Inr w' \<Rightarrow> list_entries w' rest)"
| "list_entries w (Pyth t props ps # rest) =
     (case list_paragraphs w 0 ps of Inl e \<Rightarrow> Inl e | Inr w' \<Rightarrow> list_entries w' rest)"
| "list_entries w (PyInt i # rest) = Inl AttributeError"
| "list_entries w (PySeq xs # rest) = Inl AttributeError"
| "list_entries w (PyStr s # rest) = Inl AttributeError"
| "list_paragraphs w j [] = Inr w"
| "list_paragraphs w j (p # ps) =
     (case handler w p (if j = 0 then ''* '' else ''  '') of
        Inl e \<Rightarrow> Inl e
      | Inr w' \<Rightarrow> list_paragraphs w' (j + 1) ps)"

text \<open>The loop of \<^verbatim>\<open>go\<close>, with \<open>np\<close> the number of paragraphs and \<open>i\<close> the running index.\<close>

fun go_loop :: "writer \<Rightarrow> nat \<Rightarrow> nat \<Rightarrow> 'p pyobj list \<Rightarrow> error + writer" where
  "go_loop w np i [] = Inr w"
| "go_loop w np i (p # ps) =
     (case handler w p [] of
        Inl e \<Rightarrow> Inl e
      | Inr w' \<Rightarrow>
          go_loop (if int i < int np - 1 then w'\<lparr>target := swrite (target w') (newline w')\<rparr> else w')
            np (i + 1) ps)"

definition go :: "writer \<Rightarrow> 'p document \<Rightarrow> error + stream" where
  "go w doc =
     (case go_loop w (length (content_of doc)) 0 (content_of doc) of
        Inl e \<Rightarrow> Inl e
      | Inr w' \<Rightarrow> Inr (seek (truncate_stream (target w')) 0))"

text \<open>
  \<^verbatim>\<open>PlaintextWriter.write\<close>; a target left out is a fresh \<^verbatim>\<open>StringIO()\<close>. The encoding is
  stored and never read.
\<close>

definition PlaintextWriter_write :: "'p document \<Rightarrow> stream option \<Rightarrow> string \<Rightarrow> error + stream" where
  "PlaintextWriter_write doc target_opt nl =
     go \<lparr>target = (case target_opt of None \<Rightarrow> StringIO | Some t \<Rightarrow> t), indent = - 1, newline = nl\<rparr> doc"

text \<open>
  The output as the specification words it. A paragraph is given by its text runs; its
  rendering is each line of the concatenated runs followed by the newline string; a document
  is the renderings of its paragraphs with one newline string between neighbours.
\<close>

definition spec_paragraph :: "string \<Rightarrow> string list \<Rightarrow> string" where
  "spec_paragraph nl runs = concat (map (\<lambda>line. line @ nl) (splitlines (concat runs)))"

fun spec_join :: "string \<Rightarrow> string list \<Rightarrow> string" where
  "spec_join nl [] = []"
| "spec_join nl [x] = x"
| "spec_join nl (x # y # rest) = x @ nl @ spec_join nl (y # rest)"

definition spec_document :: "string \<Rightarrow> string list list \<Rightarrow> string" where
  "spec_document nl paragraphs = spec_join nl (map (spec_paragraph nl) paragraphs)"

text \<open>
  A paragraph node built from its text runs, each run a \<open>Text\<close> node holding strings.
\<close>

definition mk_text :: "(string \<times> 'p) list \<times> string list \<Rightarrow> 'p pyobj" where
  "mk_text t = Pyth Text (fst t) (map PyStr (snd t))"

definition mk_paragraph :: "(string \<times> 'p) list \<times> ((string \<times> 'p) list \<times> string list) list \<Rightarrow> 'p pyobj" where
  "mk_paragraph p = Pyth Paragraph (fst p) (map mk_text (snd p))"

definition runs_of :: "(string \<times> 'p) list \<times> ((string \<times> 'p) list \<times> string list) list \<Rightarrow> string list" where
  "runs_of p = map (\<lambda>t. concat (snd t)) (snd p)"

section \<open>Axis matching (jax/interpreters/batching.py)\<close>

text \<open>
  List surgery on shapes and index tuples: dropping the entry at a position, putting an
  entry in at a position, and moving the entry at one position to another.
\<close>

definition remove_at :: "nat \<Rightarrow> 'b list \<Rightarrow> 'b list" where
  "remove_at i xs = take i xs @ drop (Suc i) xs"

definition insert_at :: "nat \<Rightarrow> 'b \<Rightarrow> 'b list \<Rightarrow> 'b list" where
  "insert_at i y xs = take i xs @ y # drop i xs"

definition move_entry :: "nat \<Rightarrow> nat \<Rightarrow> 'b list \<Rightarrow> 'b list" where
  "move_entry s d xs = insert_at d (xs ! s) (remove_at s xs)"

text \<open>\<^verbatim>\<open>list.insert\<close>: an index beyond either end is clipped, a negative one counts from the end.\<close>

definition py_insert :: "int \<Rightarrow> 'b \<Rightarrow> 'b list \<Rightarrow> 'b list" where
  "py_insert i y xs =
     (if i < 0 then insert_at (nat (max 0 (i + int (length xs)))) y xs
      else insert_at (min (nat i) (length xs)) y xs)"

text \<open>
  Modelled from the spec: \<^verbatim>\<open>canonicalize_axis\<close> of \<^verbatim>\<open>jax/_src/util.py\<close>, which is not
  among the sources. An axis position valid for a rank \<open>num_dims\<close> lies in
  \<open>[-num_dims, num_dims)\<close>; a negative position counts from the end; any other raises
  \<^verbatim>\<open>ValueError\<close>.
\<close>

definition canonicalize_axis :: "int \<Rightarrow> nat \<Rightarrow> error + nat" where
  "canonicalize_axis axis num_dims =
     (if - int num_dims \<le> axis \<and> axis < int num_dims
      then Inr (nat (if axis < 0 then axis + int num_dims else axis))
      else Inl ValueError)"

text \<open>
  Modelled from the spec: \<^verbatim>\<open>moveaxis\<close> of \<^verbatim>\<open>jax/_src/util.py\<close>, which is not among the
  sources. It returns \<open>x\<close> when the two positions are the same integer, and otherwise the
  transposition of \<open>x\<close> in which axis \<open>src\<close> of \<open>x\<close> has become axis \<open>dst\<close> and the other
  axes have kept their order: the shape has its entry moved, and the element at an index
  tuple is the element of \<open>x\<close> at the tuple with the entry moved back.
\<close>

definition moveaxis :: "'a ndarray \<Rightarrow> int \<Rightarrow> int \<Rightarrow> error + 'a ndarray" where
  "moveaxis x src dst =
     (if src = dst then Inr x
      else
        err_bind (canonicalize_axis src (length (shape x))) (\<lambda>s.
        err_bind (canonicalize_axis dst (length (shape x))) (\<lambda>d.
          Inr \<lparr>shape = move_entry s d (shape x),
               elem = (\<lambda>idx. elem x (move_entry d s idx))\<rparr>)))"

text \<open>
  \<^verbatim>\<open>jax.lax.broadcast_in_dim\<close> and the \<^verbatim>\<open>sum\<close> method of an array belong to modules that
  are not among the sources; the two branches of \<open>matchaxis\<close> that use them take them as
  parameters.
\<close>

record 'a array_ops =
  broadcast_in_dim :: "'a ndarray \<Rightarrow> nat list \<Rightarrow> nat list \<Rightarrow> error + 'a ndarray"
  array_sum :: "'a ndarray \<Rightarrow> int \<Rightarrow> error + 'a ndarray"

text \<open>
  Only an array carries a shape and elements in this model; \<^verbatim>\<open>np.shape\<close>, \<^verbatim>\<open>np.ndim\<close>
  and the array operations raise \<^verbatim>\<open>TypeError\<close> on any other value. (On a tracer the
  operations are staged into the jaxpr under construction, which the model does not
  represent.)
\<close>

fun as_array :: "'a jaxval \<Rightarrow> error + 'a ndarray" where
  "as_array (ArrayV a) = Inr a"
| "as_array _ = Inl TypeError"

text \<open>
  \<^verbatim>\<open>np.delete(arr, i)\<close> for an integer \<open>i\<close>: a negative position counts from the end, a
  position out of bounds raises \<^verbatim>\<open>IndexError\<close>.
\<close>

definition np_delete :: "'b list \<Rightarrow> int \<Rightarrow> error + 'b list" where
  "np_delete xs i =
     (if 0 \<le> i \<and> i < int (length xs) then Inr (remove_at (nat i) xs)
      else if - int (length xs) \<le> i \<and> i < 0 then Inr (remove_at (nat (i + int (length xs))) xs)
      else Inl IndexError)"

text \<open>\<^verbatim>\<open>broadcast\<close>.\<close>

definition broadcast ::
  "'a array_ops \<Rightarrow> ('a ndarray \<Rightarrow> aval) \<Rightarrow> 'a jaxval \<Rightarrow> nat \<Rightarrow> int \<Rightarrow> error + 'a jaxval" where
  "broadcast ops h x sz axis =
     err_bind (get_aval h x) (\<lambda>av.
       if av = AbstractUnit then Inr UnitV
       else
         err_bind (as_array x) (\<lambda>a.
           let shape' = py_insert axis sz (shape a)
           in err_bind (np_delete [0..<length shape'] axis) (\<lambda>broadcast_dims.
              err_bind (broadcast_in_dim ops a shape' broadcast_dims) (\<lambda>r. Inr (ArrayV r)))))"

text \<open>
  \<^verbatim>\<open>matchaxis\<close>. An axis is an \<^verbatim>\<open>int\<close> or \<^verbatim>\<open>not_mapped\<close>, which is \<^verbatim>\<open>None\<close>. Every way
  through the last branch raises \<^verbatim>\<open>ValueError\<close>; the axis name only words the message.
\<close>

datatype axis_name = TempAxisName | NoAxisName | AxisName string

definition matchaxis ::
  "'a array_ops \<Rightarrow> ('a ndarray \<Rightarrow> aval) \<Rightarrow> axis_name \<Rightarrow> nat \<Rightarrow> int option \<Rightarrow> int option \<Rightarrow>
   'a jaxval \<Rightarrow> bool \<Rightarrow> error + 'a jaxval" where
  "matchaxis ops h name sz src dst x sum_match =
     (case get_aval h x of
        Inl e \<Rightarrow> Inl TypeError
      | Inr av \<Rightarrow>
          if av = AbstractUnit then Inr UnitV
          else if src = dst then Inr x
          else
            (case (src, dst) of
               (Some s, Some d) \<Rightarrow>
                 err_bind (as_array x) (\<lambda>a. err_bind (moveaxis a s d) (\<lambda>r. Inr (ArrayV r)))
             | (None, Some d) \<Rightarrow>
                 err_bind (as_array x) (\<lambda>a.
                 err_bind (canonicalize_axis d (length (shape a) + 1)) (\<lambda>axis.
                   broadcast ops h x sz (int axis)))
             | (Some s, None) \<Rightarrow>
                 if sum_match
                 then err_bind (as_array x) (\<lambda>a.
                        err_bind (array_sum ops a s) (\<lambda>r. Inr (ArrayV r)))
                 else Inl ValueError
             | (None, None) \<Rightarrow> Inl ValueError))"

text \<open>Two arrays are equal when they have one shape and the same element at every index tuple of it.\<close>

definition array_equal :: "'a ndarray \<Rightarrow> 'a ndarray \<Rightarrow> bool" where
  "array_equal a b =
     (shape a = shape b \<and> list_all (\<lambda>idx. elem a idx = elem b idx) (indices (shape a)))"

text \<open>An axis position valid for a rank.\<close>

definition valid_axis :: "int \<Rightarrow> nat \<Rightarrow> bool" where
  "valid_axis axis num_dims = (- int num_dims \<le> axis \<and> axis < int num_dims)"

section \<open>Properties of the trace stack\<close>

text \<open>
  Claim C9. A freshly constructed trace stack holds exactly one main trace, at level 0 with
  trace type \<open>EvalTrace\<close>, and that trace is also the dynamic trace; \<open>next_level\<close> is the
  current length of the stack (so a push raises it by one); and a push followed by a pop
  succeeds and gives back the state before the push.
\<close>

theorem trace_stack_well_formed:
  "stack (TraceStack_init :: 'p TraceStack) = [eval_trace]
   \<and> length (stack (TraceStack_init :: 'p TraceStack)) = 1
   \<and> level (eval_trace :: 'p MainTrace) = 0
   \<and> trace_type (eval_trace :: 'p MainTrace) = EvalTrace
   \<and> dynamic (TraceStack_init :: 'p TraceStack) = eval_trace
   \<and> next_level (TraceStack_init :: 'p TraceStack) = 1
   \<and> next_level s = int (length (stack s))
   \<and> next_level (push m s) = next_level s + 1
   \<and> pop (push m s) = Inr s"
  by (simp add: TraceStack_init_def eval_trace_def next_level_def push_def pop_def)

section \<open>Named shapes: the join of two dictionaries\<close>


lemma join_items_error: "join_items r d = Inl e \<Longrightarrow> e = TypeError"
  by (induction r d rule: join_items.induct) (auto simp: setdefault_def split: option.splits if_splits)

lemma map_of_append_known:
  "map_of r k = Some v \<Longrightarrow> map_of (r @ (k, v) # d) = map_of (r @ d)"
  by (auto simp: fun_eq_iff map_add_def split: option.splits)

lemma join_items_Inr:
  "(\<exists>r'. join_items r d = Inr r') \<longleftrightarrow> (\<forall>(k, v) \<in> set d. map_of (r @ d) k = Some v)"
proof (induction r d rule: join_items.induct)
  case (1 result)
  then show ?case by simp
next
  case (2 result name sz items)
  show ?case
  proof (cases "map_of result name")
    case None
    with 2 show ?thesis
      by (auto simp: setdefault_def map_add_def split: option.splits)
  next
    case (Some v')
    show ?thesis
    proof (cases "v' = sz")
      case True
      from 2 Some True show ?thesis
        by (simp add: setdefault_def map_of_append_known del: map_of_append)
           (simp add: map_add_def)
    next
      case False
      with Some show ?thesis
        by (auto simp: setdefault_def map_add_def split: option.splits)
    qed
  qed
qed

lemma join_items_map_of:
  "join_items r d = Inr r' \<Longrightarrow> map_of r' = map_of (r @ d)"
proof (induction r d arbitrary: r' rule: join_items.induct)
  case (1 result)
  then show ?case by simp
next
  case (2 result name sz items)
  show ?case
  proof (cases "map_of result name")
    case None
    with 2 show ?thesis
      by (auto simp: setdefault_def split: option.splits if_splits)
  next
    case (Some v')
    with "2.prems" have t: "v' = sz" by (auto simp: setdefault_def split: if_splits)
    from 2 Some t show ?thesis
      by (simp add: setdefault_def map_of_append_known del: map_of_append)
  qed
qed

lemma consistent_iff:
  "consistent xs \<longleftrightarrow> (\<forall>k v v'. (k, v) \<in> set xs \<and> (k, v') \<in> set xs \<longrightarrow> v = v')"
proof
  assume h: "consistent xs"
  show "\<forall>k v v'. (k, v) \<in> set xs \<and> (k, v') \<in> set xs \<longrightarrow> v = v'"
  proof (intro allI impI)
    fix k v v' assume "(k, v) \<in> set xs \<and> (k, v') \<in> set xs"
    with h have "map_of xs k = Some v" "map_of xs k = Some v'"
      by (auto simp: consistent_def)
    then show "v = v'" by simp
  qed
next
  assume h: "\<forall>k v v'. (k, v) \<in> set xs \<and> (k, v') \<in> set xs \<longrightarrow> v = v'"
  show "consistent xs"
    unfolding consistent_def
  proof (clarify)
    fix k v assume m: "(k, v) \<in> set xs"
    then obtain v' where s: "map_of xs k = Some v'" by (meson weak_map_of_SomeI)
    then have "(k, v') \<in> set xs" by (rule map_of_SomeD)
    with h m have "v = v'" by blast
    with s show "map_of xs k = Some v" by simp
  qed
qed




lemma join_items_empty: "(\<exists>r'. join_items [] a = Inr r') \<longleftrightarrow> consistent a"
  by (simp add: join_items_Inr consistent_def)

lemma consistent_appendD1: "consistent (a @ b) \<Longrightarrow> consistent a"
  by (simp add: consistent_iff) blast

lemma join_items_second:
  assumes "consistent a" and "map_of r = map_of a"
  shows "(\<exists>r'. join_items r b = Inr r') \<longleftrightarrow> consistent (a @ b)"
proof -
  have "(\<exists>r'. join_items r b = Inr r') \<longleftrightarrow> (\<forall>(k, v) \<in> set b. map_of (a @ b) k = Some v)"
    by (simp add: join_items_Inr assms(2))
  also have "\<dots> \<longleftrightarrow> consistent (a @ b)"
    using assms(1) by (auto simp: consistent_def map_add_def split: option.splits)
  finally show ?thesis .
qed


lemma join2_Inr: "(\<exists>r. join_named_shapes [a, b] = Inr r) \<longleftrightarrow> consistent (a @ b)"
proof (cases "join_items [] a")
  case (Inl e)
  then have "\<not> (\<exists>r'. join_items [] a = Inr r')" by simp
  then have "\<not> consistent a" by (simp add: join_items_empty)
  then have "\<not> consistent (a @ b)" using consistent_appendD1 by blast
  with Inl show ?thesis by (simp add: join_named_shapes_def)
next
  case (Inr r)
  then have m: "map_of r = map_of a" using join_items_map_of by fastforce
  from Inr have "\<exists>r'. join_items [] a = Inr r'" by simp
  then have ca: "consistent a" by (simp add: join_items_empty)
  have "(\<exists>r'. join_items r b = Inr r') \<longleftrightarrow> consistent (a @ b)"
    by (rule join_items_second [OF ca m])
  moreover have "join_named_shapes [a, b] = join_items r b"
    using Inr by (cases "join_items r b") (simp_all add: join_named_shapes_def)
  ultimately show ?thesis by simp
qed


lemma join2_map_of:
  "join_named_shapes [a, b] = Inr r \<Longrightarrow> map_of r = map_of (a @ b)"
  by (auto simp: join_named_shapes_def split: sum.splits dest!: join_items_map_of)

lemma join2_error: "join_named_shapes [a, b] = Inl e \<Longrightarrow> e = TypeError"
  by (auto simp: join_named_shapes_def split: sum.splits dest: join_items_error)

lemma join2_cases:
  "(\<not> consistent (a @ b) \<and> join_named_shapes [a, b] = Inl TypeError) \<or>
   (consistent (a @ b) \<and> (\<exists>r. join_named_shapes [a, b] = Inr r \<and> map_of r = map_of (a @ b)))"
proof (cases "join_named_shapes [a, b]")
  case (Inl e)
  then have "\<not> consistent (a @ b)" using join2_Inr [of a b] by simp
  with Inl join2_error [OF Inl] show ?thesis by simp
next
  case (Inr r)
  then have "consistent (a @ b)" using join2_Inr [of a b] by auto
  with Inr join2_map_of [OF Inr] show ?thesis by simp
qed



section \<open>Properties of the abstract-value lattice\<close>




















text \<open>
  Claim C2, as amended. For two \<open>ShapedArray\<close> values \<open>a\<close> and \<open>b\<close>: with symbolically
  equal shapes and equal dtypes, \<open>a.join(b)\<close> returns the \<open>ShapedArray\<close> of that shape and
  dtype whose \<open>weak_type\<close> is the conjunction of the two flags and whose named shape is the
  join of the two named shapes, provided no axis name has two sizes in them, and raises
  \<^verbatim>\<open>TypeError\<close> when one has; with equal dtypes only it returns the \<open>UnshapedArray\<close> of
  that dtype; otherwise it raises \<^verbatim>\<open>TypeError\<close>.
\<close>

theorem ShapedArray_join_cases:
  "(symbolic_equal_shape sa sb \<and> da = db \<and> consistent (na @ nb)
      \<longrightarrow> (\<exists>ns. join_named_shapes [na, nb] = Inr ns
               \<and> map_of ns = map_of (na @ nb)
               \<and> join checks (ShapedArray sa da wa na) (ShapedArray sb db wb nb)
                   = Inr (ShapedArray sa da (wa \<and> wb) ns)))
   \<and> (symbolic_equal_shape sa sb \<and> da = db \<and> \<not> consistent (na @ nb)
      \<longrightarrow> join checks (ShapedArray sa da wa na) (ShapedArray sb db wb nb) = Inl TypeError)
   \<and> (\<not> symbolic_equal_shape sa sb \<and> da = db
      \<longrightarrow> join checks (ShapedArray sa da wa na) (ShapedArray sb db wb nb)
            = Inr (UnshapedArray da False))
   \<and> (da \<noteq> db
      \<longrightarrow> join checks (ShapedArray sa da wa na) (ShapedArray sb db wb nb) = Inl TypeError)"
  using join2_cases [of na nb]
  by (auto simp: err_bind_def ShapedArray_update_def simp del: map_of_append)

theorem ShapedArray_join_cases_witness:
  "symbolic_equal_shape [2] [2] \<and> consistent ([(''i'', 3)] @ [(''j'', 4), (''i'', 3::int)])
   \<and> \<not> consistent ([(''i'', 3)] @ [(''i'', 4::int)])
   \<and> \<not> symbolic_equal_shape [2] [2, 2]
   \<and> ''float32'' \<noteq> ''int32''
   \<and> (\<exists>ns. join_named_shapes [[(''i'', 3)], [(''j'', 4), (''i'', 3)]] = Inr ns
         \<and> map_of ns = map_of ([(''i'', 3)] @ [(''j'', 4), (''i'', 3)])
         \<and> join False (ShapedArray [2] ''float32'' True [(''i'', 3)])
              (ShapedArray [2] ''float32'' False [(''j'', 4), (''i'', 3)])
            = Inr (ShapedArray [2] ''float32'' (True \<and> False) ns))
   \<and> join False (ShapedArray [2] ''float32'' True [(''i'', 3)])
        (ShapedArray [2] ''float32'' False [(''i'', 4)]) = Inl TypeError
   \<and> join False (ShapedArray [2] ''float32'' True [(''i'', 3)])
        (ShapedArray [2, 2] ''float32'' False [(''i'', 4)]) = Inr (UnshapedArray ''float32'' False)
   \<and> join False (ShapedArray [2] ''float32'' True [(''i'', 3)])
        (ShapedArray [2] ''int32'' False [(''i'', 4)]) = Inl TypeError"
proof -
  have h1: "symbolic_equal_shape [2] [2]"
    by (simp add: symbolic_equal_shape_def symbolic_equal_dim_def)
  have h2: "consistent ([(''i'', 3)] @ [(''j'', 4), (''i'', 3::int)])"
    by (simp add: consistent_def)
  have h3: "\<not> consistent ([(''i'', 3)] @ [(''i'', 4::int)])"
    by (simp add: consistent_def)
  have h4: "\<not> symbolic_equal_shape [2] [2, 2]"
    by (simp add: symbolic_equal_shape_def)
  have h5: "''float32'' \<noteq> ''int32''"
    by simp
  have c1: "\<exists>ns. join_named_shapes [[(''i'', 3)], [(''j'', 4), (''i'', 3)]] = Inr ns
         \<and> map_of ns = map_of ([(''i'', 3)] @ [(''j'', 4), (''i'', 3)])
         \<and> join False (ShapedArray [2] ''float32'' True [(''i'', 3)])
              (ShapedArray [2] ''float32'' False [(''j'', 4), (''i'', 3)])
            = Inr (ShapedArray [2] ''float32'' (True \<and> False) ns)"
    by (rule ShapedArray_join_cases [THEN conjunct1, rule_format]) (intro conjI h1 h2 refl)
  have c2: "join False (ShapedArray [2] ''float32'' True [(''i'', 3)])
        (ShapedArray [2] ''float32'' False [(''i'', 4)]) = Inl TypeError"
    by (rule ShapedArray_join_cases [THEN conjunct2, THEN conjunct1, rule_format])
       (intro conjI h1 h3 refl)
  have c3: "join False (ShapedArray [2] ''float32'' True [(''i'', 3)])
        (ShapedArray [2, 2] ''float32'' False [(''i'', 4)]) = Inr (UnshapedArray ''float32'' False)"
    by (rule ShapedArray_join_cases [THEN conjunct2, THEN conjunct2, THEN conjunct1, rule_format])
       (intro conjI h4 refl)
  have c4: "join False (ShapedArray [2] ''float32'' True [(''i'', 3)])
        (ShapedArray [2] ''int32'' False [(''i'', 4)]) = Inl TypeError"
    by (rule ShapedArray_join_cases [THEN conjunct2, THEN conjunct2, THEN conjunct2, rule_format])
       (rule h5)
  show ?thesis
    by (intro conjI h1 h2 h3 h4 h5 c1 c2 c3 c4)
qed

text \<open>
  The claim as stated promises a \<open>ShapedArray\<close> whenever shapes and dtypes agree; with the
  axis name \<open>i\<close> of size 3 on one side and 4 on the other, \<^verbatim>\<open>join_named_shapes\<close> raises.
\<close>

theorem ShapedArray_join_counterexample:
  "symbolic_equal_shape [2] [2]
   \<and> join False (ShapedArray [2] ''float32'' False [(''i'', 3)])
        (ShapedArray [2] ''float32'' False [(''i'', 4)]) = Inl TypeError"
  by (simp add: symbolic_equal_shape_def symbolic_equal_dim_def err_bind_def
        join_named_shapes_def setdefault_def)

text \<open>
  Claim C3. \<^verbatim>\<open>None\<close> is the identity of \<open>lattice_join\<close> on either side, and two values
  neither of which is an instance of the other's class make it raise \<^verbatim>\<open>TypeError\<close>.
\<close>

theorem lattice_join_none_incomparable:
  "lattice_join checks None (Some y) = Inr (Some y)
   \<and> lattice_join checks (Some y) None = Inr (Some y)
   \<and> (\<not> isinstance x (type_of z) \<and> \<not> isinstance z (type_of x)
      \<longrightarrow> lattice_join checks (Some x) (Some z) = Inl TypeError)"
  by simp

theorem lattice_join_none_incomparable_witness:
  "\<not> isinstance AbstractUnit (type_of (ShapedArray [2] ''float32'' False []))
   \<and> \<not> isinstance (ShapedArray [2] ''float32'' False []) (type_of AbstractUnit)
   \<and> lattice_join True (Some AbstractUnit) (Some (ShapedArray [2] ''float32'' False []))
       = Inl TypeError"
proof -
  have h1: "\<not> isinstance AbstractUnit (type_of (ShapedArray [2] ''float32'' False []))"
    by (simp add: isinstance_def)
  have h2: "\<not> isinstance (ShapedArray [2] ''float32'' False []) (type_of AbstractUnit)"
    by (simp add: isinstance_def)
  have c: "lattice_join True (Some AbstractUnit) (Some (ShapedArray [2] ''float32'' False []))
       = Inl TypeError"
    by (rule lattice_join_none_incomparable [THEN conjunct2, THEN conjunct2, rule_format])
       (intro conjI h1 h2)
  show ?thesis
    by (intro conjI h1 h2 c)
qed

section \<open>Properties of partial values\<close>

text \<open>
  Claim C6. A partial value is known exactly when its first component is absent. For a
  constant \<open>c\<close> that the constructor accepts (always, unless \<^verbatim>\<open>jax_enable_checks\<close> is set
  and \<open>c\<close> is neither a tracer nor a valid JAX type), \<open>known c\<close> is known, \<open>get_known\<close>
  returns \<open>c\<close>, \<open>get_aval\<close> is the abstract value of \<open>c\<close> and \<open>merge_with_known v\<close> returns
  \<open>c\<close>. For an abstract value \<open>a\<close>, \<open>unknown a\<close> is not known, \<open>get_known\<close> returns
  \<^verbatim>\<open>None\<close>, \<open>get_aval\<close> returns \<open>a\<close> and \<open>merge_with_known v\<close> returns \<open>v\<close>.
\<close>

theorem PartialVal_accessors:
  "((checks \<longrightarrow> is_Tracer c \<or> valid_jaxtype h c) \<longrightarrow>
      (\<exists>p. known checks h c = Inr p
         \<and> is_known p
         \<and> get_known p = Some c
         \<and> PartialVal_get_aval h p = err_bind (get_aval h c) (\<lambda>av. Inr (Some av))
         \<and> merge_with_known p v = c))
   \<and> (\<exists>p. unknown checks h a = Inr p
         \<and> \<not> is_known p
         \<and> get_known p = None
         \<and> PartialVal_get_aval h p = Inr (Some a)
         \<and> merge_with_known p v = v)
   \<and> is_known q = (\<not> (\<exists>a'. fst q = Some a'))"
  by (auto simp: known_def unknown_def PartialVal_new_def is_known_def get_known_def
        PartialVal_get_aval_def merge_with_known_def valid_jaxtype_def err_bind_def)

theorem PartialVal_accessors_witness:
  "valid_jaxtype (\<lambda>arr. ConcreteArray ''int32'' arr False)
     (ArrayV \<lparr>shape = [2], elem = (\<lambda>idx. Num 7)\<rparr>)
   \<and> (\<exists>p. known True (\<lambda>arr. ConcreteArray ''int32'' arr False)
              (ArrayV \<lparr>shape = [2], elem = (\<lambda>idx. Num 7)\<rparr>) = Inr p
         \<and> is_known p
         \<and> get_known p = Some (ArrayV \<lparr>shape = [2], elem = (\<lambda>idx. Num 7)\<rparr>)
         \<and> PartialVal_get_aval (\<lambda>arr. ConcreteArray ''int32'' arr False) p
             = err_bind (get_aval (\<lambda>arr. ConcreteArray ''int32'' arr False)
                  (ArrayV \<lparr>shape = [2], elem = (\<lambda>idx. Num 7)\<rparr>)) (\<lambda>av. Inr (Some av))
         \<and> merge_with_known p UnitV = ArrayV \<lparr>shape = [2], elem = (\<lambda>idx. Num 7)\<rparr>)"
proof -
  let ?h = "\<lambda>arr. ConcreteArray ''int32'' arr False"
  let ?c = "ArrayV \<lparr>shape = [2], elem = (\<lambda>idx. Num 7)\<rparr>"
  have g: "valid_jaxtype ?h ?c"
    by (simp add: valid_jaxtype_def)
  have c: "\<exists>p. known True ?h ?c = Inr p \<and> is_known p \<and> get_known p = Some ?c
         \<and> PartialVal_get_aval ?h p = err_bind (get_aval ?h ?c) (\<lambda>av. Inr (Some av))
         \<and> merge_with_known p UnitV = ?c"
    by (rule PartialVal_accessors [THEN conjunct1, rule_format]) (simp add: g)
  show ?thesis
    by (intro conjI g c)
qed

section \<open>Properties of the Python markup reader\<close>

lemma getitem_plain: "plain x \<Longrightarrow> getitem content x = (content @ [x], Inr Self)"
  by (cases x) simp_all

lemma getitem_int_free:
  "int_free x \<Longrightarrow> getitem content x = (content @ leaves x, Inr Self)"
  "list_all int_free xs \<Longrightarrow> getitem_each content xs = (content @ concat (map leaves xs), None)"
  by (induction content x and content xs rule: getitem_getitem_each.induct) simp_all

lemma getitem_each_plain:
  "list_all plain xs \<Longrightarrow> getitem_each content xs = (content @ xs, None)"
  by (induction xs arbitrary: content) (simp_all add: getitem_plain)

lemma convert_not_markup: "\<not> is_PythonBase x \<Longrightarrow> convert vp x = Inr x"
  by (cases x) simp_all

lemma toPyth_not_T:
  "c \<noteq> T \<Longrightarrow>
   toPyth vp c props xs =
     (case convert_all vp xs of Inl e \<Rightarrow> Inl e | Inr ys \<Rightarrow> pyth_new vp (pythType_of c) props ys)"
  by (cases c) auto

lemma convert_all_Inr:
  "convert_all vp xs = Inr ys \<longleftrightarrow>
     length ys = length xs \<and> (\<forall>i < length xs. convert vp (xs ! i) = Inr (ys ! i))"
proof (induction xs arbitrary: ys)
  case Nil
  then show ?case by auto
next
  case (Cons x xs)
  show ?case
  proof (cases ys)
    case Nil
    then show ?thesis by (auto split: sum.splits)
  next
    case (Cons y ys')
    have "(\<forall>i < Suc (length xs). convert vp ((x # xs) ! i) = Inr ((y # ys') ! i))
          \<longleftrightarrow> convert vp x = Inr y \<and> (\<forall>i < length xs. convert vp (xs ! i) = Inr (ys' ! i))"
      by (auto simp: nth_Cons split: nat.splits)
    with Cons.IH [of ys'] Cons show ?thesis
      by (auto split: sum.splits)
  qed
qed

lemma convert_all_Inl:
  "convert_all vp xs = Inl e \<longleftrightarrow>
     (\<exists>i < length xs. (\<forall>j < i. \<exists>c. convert vp (xs ! j) = Inr c) \<and> convert vp (xs ! i) = Inl e)"
proof (induction xs)
  case Nil
  then show ?case by simp
next
  case (Cons x xs)
  show ?case
  proof (cases "convert vp x")
    case (Inl e')
    have "(\<exists>i < length (x # xs). (\<forall>j < i. \<exists>c. convert vp ((x # xs) ! j) = Inr c)
             \<and> convert vp ((x # xs) ! i) = Inl e) \<longleftrightarrow> e' = e"
    proof
      assume "\<exists>i < length (x # xs). (\<forall>j < i. \<exists>c. convert vp ((x # xs) ! j) = Inr c)
             \<and> convert vp ((x # xs) ! i) = Inl e"
      then obtain i where i: "i < length (x # xs)"
          "\<forall>j < i. \<exists>c. convert vp ((x # xs) ! j) = Inr c" "convert vp ((x # xs) ! i) = Inl e"
        by blast
      show "e' = e"
      proof (cases i)
        case 0
        with i(3) Inl show ?thesis by simp
      next
        case (Suc k)
        with i(2) have "\<exists>c. convert vp ((x # xs) ! 0) = Inr c" by blast
        with Inl show ?thesis by simp
      qed
    next
      assume "e' = e"
      with Inl have "convert vp ((x # xs) ! 0) = Inl e" by simp
      then show "\<exists>i < length (x # xs). (\<forall>j < i. \<exists>c. convert vp ((x # xs) ! j) = Inr c)
             \<and> convert vp ((x # xs) ! i) = Inl e"
        by (intro exI [of _ 0]) simp
    qed
    with Inl show ?thesis by simp
  next
    case (Inr y)
    have "(\<exists>i < length (x # xs). (\<forall>j < i. \<exists>c. convert vp ((x # xs) ! j) = Inr c)
             \<and> convert vp ((x # xs) ! i) = Inl e)
          \<longleftrightarrow> (\<exists>i < length xs. (\<forall>j < i. \<exists>c. convert vp (xs ! j) = Inr c)
             \<and> convert vp (xs ! i) = Inl e)"
    proof
      assume "\<exists>i < length (x # xs). (\<forall>j < i. \<exists>c. convert vp ((x # xs) ! j) = Inr c)
             \<and> convert vp ((x # xs) ! i) = Inl e"
      then obtain i where i: "i < length (x # xs)"
          "\<forall>j < i. \<exists>c. convert vp ((x # xs) ! j) = Inr c" "convert vp ((x # xs) ! i) = Inl e"
        by blast
      from i(3) Inr obtain k where k: "i = Suc k" by (cases i) auto
      have "\<forall>j < k. \<exists>c. convert vp (xs ! j) = Inr c"
      proof (intro allI impI)
        fix j assume "j < k"
        then have "Suc j < i" using k by simp
        with i(2) have "\<exists>c. convert vp ((x # xs) ! Suc j) = Inr c" by blast
        then show "\<exists>c. convert vp (xs ! j) = Inr c" by simp
      qed
      with i(1,3) k show "\<exists>i < length xs. (\<forall>j < i. \<exists>c. convert vp (xs ! j) = Inr c)
             \<and> convert vp (xs ! i) = Inl e"
        by (intro exI [of _ k]) simp
    next
      assume "\<exists>i < length xs. (\<forall>j < i. \<exists>c. convert vp (xs ! j) = Inr c)
             \<and> convert vp (xs ! i) = Inl e"
      then obtain k where k: "k < length xs" "\<forall>j < k. \<exists>c. convert vp (xs ! j) = Inr c"
          "convert vp (xs ! k) = Inl e"
        by blast
      have "\<forall>j < Suc k. \<exists>c. convert vp ((x # xs) ! j) = Inr c"
      proof (intro allI impI)
        fix j assume "j < Suc k"
        then show "\<exists>c. convert vp ((x # xs) ! j) = Inr c"
          using k(2) Inr by (cases j) auto
      qed
      with k(1,3) show "\<exists>i < length (x # xs). (\<forall>j < i. \<exists>c. convert vp ((x # xs) ! j) = Inr c)
             \<and> convert vp ((x # xs) ! i) = Inl e"
        by (intro exI [of _ "Suc k"]) simp
    qed
    with Inr Cons.IH show ?thesis
      by (auto split: sum.splits)
  qed
qed

lemma append_item_error: "append_item ct item = Inl e \<Longrightarrow> e = TypeError"
  by (subst (asm) append_item.simps) (auto split: if_splits content_type.splits sum.splits)

lemma append_all_error: "append_all ct xs = Inl e \<Longrightarrow> e = TypeError"
  by (induction xs arbitrary: e) (auto split: sum.splits dest: append_item_error)

lemma append_all_Inr:
  "append_all ct xs = Inr ys \<longleftrightarrow>
     length ys = length xs \<and> (\<forall>i < length xs. append_item ct (xs ! i) = Inr (ys ! i))"
proof (induction xs arbitrary: ys)
  case Nil
  then show ?case by auto
next
  case (Cons x xs)
  show ?case
  proof (cases ys)
    case Nil
    then show ?thesis by (auto split: sum.splits)
  next
    case (Cons y ys')
    have "(\<forall>i < Suc (length xs). append_item ct ((x # xs) ! i) = Inr ((y # ys') ! i))
          \<longleftrightarrow> append_item ct x = Inr y \<and> (\<forall>i < length xs. append_item ct (xs ! i) = Inr (ys' ! i))"
      by (auto simp: nth_Cons split: nat.splits)
    with Cons.IH [of ys'] Cons show ?thesis
      by (auto split: sum.splits)
  qed
qed

lemma append_all_Inl:
  "append_all ct xs = Inl e \<longleftrightarrow>
     e = TypeError \<and> (\<exists>i < length xs. append_item ct (xs ! i) = Inl TypeError)"
proof (induction xs)
  case Nil
  then show ?case by simp
next
  case (Cons x xs)
  have split: "(\<exists>i < length (x # xs). append_item ct ((x # xs) ! i) = Inl TypeError)
        \<longleftrightarrow> append_item ct x = Inl TypeError
            \<or> (\<exists>i < length xs. append_item ct (xs ! i) = Inl TypeError)"
  proof
    assume "\<exists>i < length (x # xs). append_item ct ((x # xs) ! i) = Inl TypeError"
    then obtain i where i: "i < length (x # xs)" "append_item ct ((x # xs) ! i) = Inl TypeError"
      by blast
    then show "append_item ct x = Inl TypeError
            \<or> (\<exists>i < length xs. append_item ct (xs ! i) = Inl TypeError)"
      by (cases i) auto
  next
    assume "append_item ct x = Inl TypeError
            \<or> (\<exists>i < length xs. append_item ct (xs ! i) = Inl TypeError)"
    then show "\<exists>i < length (x # xs). append_item ct ((x # xs) ! i) = Inl TypeError"
    proof
      assume "append_item ct x = Inl TypeError"
      then show ?thesis by (intro exI [of _ 0]) simp
    next
      assume "\<exists>i < length xs. append_item ct (xs ! i) = Inl TypeError"
      then obtain k where "k < length xs" "append_item ct (xs ! k) = Inl TypeError" by blast
      then show ?thesis by (intro exI [of _ "Suc k"]) simp
    qed
  qed
  show ?case
  proof (cases "append_item ct x")
    case (Inl e')
    then have "e' = TypeError" by (rule append_item_error)
    with Inl show ?thesis unfolding split by auto
  next
    case (Inr y)
    with Cons.IH show ?thesis unfolding split by (auto split: sum.splits)
  qed
qed

lemma append_paragraph_keeps:
  "has_type y (NodeType Paragraph) \<Longrightarrow> append_item (NodeType Paragraph) y = Inr y"
  by (subst append_item.simps) simp

lemma append_paragraph_str:
  "append_item (NodeType Paragraph) (PyStr s) = Inr (Pyth Paragraph [] [Pyth Text [] [PyStr s]])"
  by (simp add: append_item.simps)

lemma append_paragraph_text:
  "append_item (NodeType Paragraph) (Pyth Text p ys) = Inr (Pyth Paragraph [] [Pyth Text p ys])"
  by (simp add: append_item.simps)

lemma append_paragraph_rejects:
  "\<not> has_type y (NodeType Paragraph) \<Longrightarrow> \<not> has_type y (NodeType Text) \<Longrightarrow> \<not> has_type y StrType
   \<Longrightarrow> append_item (NodeType Paragraph) y = Inl TypeError"
  by (simp add: append_item.simps)

lemma read_Inr:
  "read vp source = Inr doc \<longleftrightarrow>
     length (content_of doc) = length source
     \<and> (\<forall>i < length source. \<exists>c. convert vp (source ! i) = Inr c
            \<and> append_item (NodeType Paragraph) c = Inr (content_of doc ! i))"
proof
  assume r: "read vp source = Inr doc"
  then obtain cs where cs: "convert_all vp source = Inr cs"
    by (cases "convert_all vp source") (simp_all add: read_def)
  with r have a: "append_all (NodeType Paragraph) cs = Inr (content_of doc)"
    by (cases "append_all (NodeType Paragraph) cs") (auto simp: read_def Document_new_def)
  from cs have c1: "length cs = length source" "\<forall>i < length source. convert vp (source ! i) = Inr (cs ! i)"
    by (simp_all add: convert_all_Inr)
  from a have a1: "length (content_of doc) = length cs"
      "\<forall>i < length cs. append_item (NodeType Paragraph) (cs ! i) = Inr (content_of doc ! i)"
    by (simp_all add: append_all_Inr)
  from c1 a1 show "length (content_of doc) = length source
     \<and> (\<forall>i < length source. \<exists>c. convert vp (source ! i) = Inr c
            \<and> append_item (NodeType Paragraph) c = Inr (content_of doc ! i))"
    by auto
next
  assume h: "length (content_of doc) = length source
     \<and> (\<forall>i < length source. \<exists>c. convert vp (source ! i) = Inr c
            \<and> append_item (NodeType Paragraph) c = Inr (content_of doc ! i))"
  define cs where "cs = map (\<lambda>x. projr (convert vp x)) source"
  have c: "convert vp (source ! i) = Inr (cs ! i)"
      "append_item (NodeType Paragraph) (cs ! i) = Inr (content_of doc ! i)"
    if "i < length source" for i
  proof -
    from h that obtain c where c: "convert vp (source ! i) = Inr c"
        "append_item (NodeType Paragraph) c = Inr (content_of doc ! i)"
      by blast
    with that have "cs ! i = c" by (simp add: cs_def)
    with c show "convert vp (source ! i) = Inr (cs ! i)"
        "append_item (NodeType Paragraph) (cs ! i) = Inr (content_of doc ! i)"
      by simp_all
  qed
  have len: "length cs = length source" by (simp add: cs_def)
  have "convert_all vp source = Inr cs"
    unfolding convert_all_Inr using len c(1) by blast
  moreover have "append_all (NodeType Paragraph) cs = Inr (content_of doc)"
    unfolding append_all_Inr using len h c(2) by auto
  ultimately show "read vp source = Inr doc"
    by (cases doc) (simp add: read_def Document_new_def)
qed

lemma read_Inl:
  "read vp source = Inl e \<longleftrightarrow>
     (\<exists>i < length source. (\<forall>j < i. \<exists>c. convert vp (source ! j) = Inr c)
         \<and> convert vp (source ! i) = Inl e)
     \<or> (e = TypeError
         \<and> (\<forall>i < length source. \<exists>c. convert vp (source ! i) = Inr c)
         \<and> (\<exists>i < length source. \<exists>c. convert vp (source ! i) = Inr c
                \<and> append_item (NodeType Paragraph) c = Inl TypeError))"
proof (cases "convert_all vp source")
  case (Inl e')
  then have ex: "\<exists>i < length source. (\<forall>j < i. \<exists>c. convert vp (source ! j) = Inr c)
         \<and> convert vp (source ! i) = Inl e'"
    by (simp add: convert_all_Inl)
  then have nall: "\<not> (\<forall>i < length source. \<exists>c. convert vp (source ! i) = Inr c)"
    by auto
  have "read vp source = Inl e \<longleftrightarrow> convert_all vp source = Inl e"
    using Inl by (simp add: read_def)
  then have "read vp source = Inl e \<longleftrightarrow>
      (\<exists>i < length source. (\<forall>j < i. \<exists>c. convert vp (source ! j) = Inr c)
         \<and> convert vp (source ! i) = Inl e)"
    unfolding convert_all_Inl .
  with nall show ?thesis by blast
next
  case (Inr cs)
  then have c1: "length cs = length source" "\<forall>i < length source. convert vp (source ! i) = Inr (cs ! i)"
    by (simp_all add: convert_all_Inr)
  have no: "\<not> (\<exists>i < length source. (\<forall>j < i. \<exists>c. convert vp (source ! j) = Inr c)
         \<and> convert vp (source ! i) = Inl e)"
    using c1 by auto
  have "read vp source = Inl e \<longleftrightarrow> append_all (NodeType Paragraph) cs = Inl e"
    using Inr by (cases "append_all (NodeType Paragraph) cs") (simp_all add: read_def Document_new_def)
  also have "\<dots> \<longleftrightarrow> e = TypeError
      \<and> (\<exists>i < length source. append_item (NodeType Paragraph) (cs ! i) = Inl TypeError)"
    by (simp add: append_all_Inl c1)
  also have "\<dots> \<longleftrightarrow> e = TypeError
         \<and> (\<forall>i < length source. \<exists>c. convert vp (source ! i) = Inr c)
         \<and> (\<exists>i < length source. \<exists>c. convert vp (source ! i) = Inr c
                \<and> append_item (NodeType Paragraph) c = Inl TypeError)"
    using c1 by auto
  finally show ?thesis using no by blast
qed

text \<open>
  Claim C8, as amended. \<open>read\<close> first converts every element of \<open>source\<close>: a markup
  object by its \<open>toPyth\<close> (which converts the children of a \<open>P\<close>, \<open>LE\<close> or \<open>L\<close> object the
  same way before it calls the constructor, and hands the children of a \<open>T\<close> object to the
  constructor as they are), anything else stays itself. Then it builds the document. When
  \<open>read\<close> returns, the content of the document has the length of \<open>source\<close>, and its \<open>i\<close>-th
  element is what \<^verbatim>\<open>append\<close> makes of the converted \<open>i\<close>-th element: the element itself when
  it is a paragraph or a list, a new paragraph around it when it is a string or a text run.
  \<open>read\<close> raises the exception of the first conversion that fails, and \<^verbatim>\<open>TypeError\<close> when
  all conversions succeed and some converted element cannot be put into a paragraph. A
  constructor raises \<^verbatim>\<open>ValueError\<close> on a property that its class does not know and
  \<^verbatim>\<open>TypeError\<close> on a child that it can neither keep nor wrap.
\<close>

theorem read_document:
  "(read vp source = Inr doc \<longleftrightarrow>
      length (content_of doc) = length source
      \<and> (\<forall>i < length source. \<exists>c. convert vp (source ! i) = Inr c
             \<and> append_item (NodeType Paragraph) c = Inr (content_of doc ! i)))
   \<and> (read vp source = Inl e \<longleftrightarrow>
        (\<exists>i < length source. (\<forall>j < i. \<exists>c. convert vp (source ! j) = Inr c)
            \<and> convert vp (source ! i) = Inl e)
        \<or> (e = TypeError
            \<and> (\<forall>i < length source. \<exists>c. convert vp (source ! i) = Inr c)
            \<and> (\<exists>i < length source. \<exists>c. convert vp (source ! i) = Inr c
                   \<and> append_item (NodeType Paragraph) c = Inl TypeError)))
   \<and> (\<not> is_PythonBase x \<longrightarrow> convert vp x = Inr x)
   \<and> convert vp (Markup c props xs) = toPyth vp c props xs
   \<and> toPyth vp T props xs = pyth_new vp Text props xs
   \<and> (c \<noteq> T \<longrightarrow>
        toPyth vp c props xs =
          (case convert_all vp xs of
             Inl e \<Rightarrow> Inl e
           | Inr ys \<Rightarrow> pyth_new vp (pythType_of c) props ys))
   \<and> (convert_all vp xs = Inr ys \<longleftrightarrow>
        length ys = length xs \<and> (\<forall>i < length xs. convert vp (xs ! i) = Inr (ys ! i)))
   \<and> (convert_all vp xs = Inl e \<longleftrightarrow>
        (\<exists>i < length xs. (\<forall>j < i. \<exists>c. convert vp (xs ! j) = Inr c)
            \<and> convert vp (xs ! i) = Inl e))
   \<and> pyth_new vp t props xs =
        (if \<not> list_all (\<lambda>kv. fst kv \<in> set (vp t)) props then Inl ValueError
         else (case append_all (contentType t) xs of
                 Inl e \<Rightarrow> Inl e
               | Inr ys \<Rightarrow> Inr (Pyth t props ys)))
   \<and> (append_all ct xs = Inr ys \<longleftrightarrow>
        length ys = length xs \<and> (\<forall>i < length xs. append_item ct (xs ! i) = Inr (ys ! i)))
   \<and> (append_all ct xs = Inl e \<longleftrightarrow>
        e = TypeError \<and> (\<exists>i < length xs. append_item ct (xs ! i) = Inl TypeError))
   \<and> (has_type y (NodeType Paragraph) \<longrightarrow> append_item (NodeType Paragraph) y = Inr y)
   \<and> append_item (NodeType Paragraph) (PyStr s)
       = Inr (Pyth Paragraph [] [Pyth Text [] [PyStr s]])
   \<and> append_item (NodeType Paragraph) (Pyth Text props xs)
       = Inr (Pyth Paragraph [] [Pyth Text props xs])
   \<and> (\<not> has_type y (NodeType Paragraph) \<and> \<not> has_type y (NodeType Text) \<and> \<not> has_type y StrType
        \<longrightarrow> append_item (NodeType Paragraph) y = Inl TypeError)
   \<and> append_item ct y =
        (if has_type y ct then Inr y
         else (case ct of
                 StrType \<Rightarrow> Inl TypeError
               | NodeType t' \<Rightarrow>
                   (case append_item (contentType t') y of
                      Inl e \<Rightarrow> Inl TypeError
                    | Inr y' \<Rightarrow> Inr (Pyth t' [] [y']))))"
proof (intro conjI)
  show "read vp source = Inr doc \<longleftrightarrow>
      length (content_of doc) = length source
      \<and> (\<forall>i < length source. \<exists>c. convert vp (source ! i) = Inr c
             \<and> append_item (NodeType Paragraph) c = Inr (content_of doc ! i))"
    by (rule read_Inr)
  show "read vp source = Inl e \<longleftrightarrow>
        (\<exists>i < length source. (\<forall>j < i. \<exists>c. convert vp (source ! j) = Inr c)
            \<and> convert vp (source ! i) = Inl e)
        \<or> (e = TypeError
            \<and> (\<forall>i < length source. \<exists>c. convert vp (source ! i) = Inr c)
            \<and> (\<exists>i < length source. \<exists>c. convert vp (source ! i) = Inr c
                   \<and> append_item (NodeType Paragraph) c = Inl TypeError))"
    by (rule read_Inl)
  show "\<not> is_PythonBase x \<longrightarrow> convert vp x = Inr x"
    by (simp add: convert_not_markup)
  show "convert vp (Markup c props xs) = toPyth vp c props xs"
    by simp
  show "toPyth vp T props xs = pyth_new vp Text props xs"
    by simp
  show "c \<noteq> T \<longrightarrow>
        toPyth vp c props xs =
          (case convert_all vp xs of
             Inl e \<Rightarrow> Inl e
           | Inr ys \<Rightarrow> pyth_new vp (pythType_of c) props ys)"
    by (simp add: toPyth_not_T)
  show "convert_all vp xs = Inr ys \<longleftrightarrow>
        length ys = length xs \<and> (\<forall>i < length xs. convert vp (xs ! i) = Inr (ys ! i))"
    by (rule convert_all_Inr)
  show "convert_all vp xs = Inl e \<longleftrightarrow>
        (\<exists>i < length xs. (\<forall>j < i. \<exists>c. convert vp (xs ! j) = Inr c)
            \<and> convert vp (xs ! i) = Inl e)"
    by (rule convert_all_Inl)
  show "pyth_new vp t props xs =
        (if \<not> list_all (\<lambda>kv. fst kv \<in> set (vp t)) props then Inl ValueError
         else (case append_all (contentType t) xs of
                 Inl e \<Rightarrow> Inl e
               | Inr ys \<Rightarrow> Inr (Pyth t props ys)))"
    by (rule pyth_new_def)
  show "append_all ct xs = Inr ys \<longleftrightarrow>
        length ys = length xs \<and> (\<forall>i < length xs. append_item ct (xs ! i) = Inr (ys ! i))"
    by (rule append_all_Inr)
  show "append_all ct xs = Inl e \<longleftrightarrow>
        e = TypeError \<and> (\<exists>i < length xs. append_item ct (xs ! i) = Inl TypeError)"
    by (rule append_all_Inl)
  show "has_type y (NodeType Paragraph) \<longrightarrow> append_item (NodeType Paragraph) y = Inr y"
    by (simp add: append_paragraph_keeps)
  show "append_item (NodeType Paragraph) (PyStr s)
       = Inr (Pyth Paragraph [] [Pyth Text [] [PyStr s]])"
    by (rule append_paragraph_str)
  show "append_item (NodeType Paragraph) (Pyth Text props xs)
       = Inr (Pyth Paragraph [] [Pyth Text props xs])"
    by (rule append_paragraph_text)
  show "\<not> has_type y (NodeType Paragraph) \<and> \<not> has_type y (NodeType Text) \<and> \<not> has_type y StrType
        \<longrightarrow> append_item (NodeType Paragraph) y = Inl TypeError"
    by (simp add: append_paragraph_rejects)
  show "append_item ct y =
        (if has_type y ct then Inr y
         else (case ct of
                 StrType \<Rightarrow> Inl TypeError
               | NodeType t' \<Rightarrow>
                   (case append_item (contentType t') y of
                      Inl e \<Rightarrow> Inl TypeError
                    | Inr y' \<Rightarrow> Inr (Pyth t' [] [y']))))"
    by (rule append_item.simps)
qed

theorem read_document_witness:
  "length (content_of (Document [Pyth Paragraph [] [Pyth Text [] [PyStr ''hi'']],
                                 Pyth Paragraph [] [Pyth Text [] [PyStr ''x'']] :: unit pyobj]))
     = length [Markup P [] [PyStr ''hi''], PyStr ''x'' :: unit pyobj]
   \<and> read (\<lambda>t. []) [Markup P [] [PyStr ''hi''], PyStr ''x'' :: unit pyobj]
       = Inr (Document [Pyth Paragraph [] [Pyth Text [] [PyStr ''hi'']],
                        Pyth Paragraph [] [Pyth Text [] [PyStr ''x'']]])
   \<and> \<not> is_PythonBase (PyStr ''x'' :: unit pyobj)
   \<and> convert (\<lambda>t. []) (PyStr ''x'' :: unit pyobj) = Inr (PyStr ''x'')
   \<and> has_type (Pyth Paragraph [] [] :: unit pyobj) (NodeType Paragraph)
   \<and> append_item (NodeType Paragraph) (Pyth Paragraph [] [] :: unit pyobj)
       = Inr (Pyth Paragraph [] [])"
proof -
  let ?vp = "\<lambda>t :: pythType. [] :: string list"
  let ?src = "[Markup P [] [PyStr ''hi''], PyStr ''x'' :: unit pyobj]"
  let ?doc = "Document [Pyth Paragraph [] [Pyth Text [] [PyStr ''hi'']],
                        Pyth Paragraph [] [Pyth Text [] [PyStr ''x'']] :: unit pyobj]"
  have h1: "length (content_of ?doc) = length ?src" by simp
  have c0: "convert ?vp (?src ! 0) = Inr (Pyth Paragraph [] [Pyth Text [] [PyStr ''hi'']])"
    by (simp add: pyth_new_def append_item.simps)
  have c1: "convert ?vp (?src ! 1) = Inr (PyStr ''x'')"
    by simp
  have a0: "append_item (NodeType Paragraph) (Pyth Paragraph [] [Pyth Text [] [PyStr ''hi'' :: unit pyobj]])
      = Inr (content_of ?doc ! 0)"
    by (simp add: append_item.simps)
  have a1: "append_item (NodeType Paragraph) (PyStr ''x'' :: unit pyobj) = Inr (content_of ?doc ! 1)"
    by (simp add: append_item.simps)
  have h2: "\<forall>i < length ?src. \<exists>c. convert ?vp (?src ! i) = Inr c
             \<and> append_item (NodeType Paragraph) c = Inr (content_of ?doc ! i)"
  proof (intro allI impI)
    fix i assume "i < length ?src"
    then have "i = 0 \<or> i = 1" by auto
    then show "\<exists>c. convert ?vp (?src ! i) = Inr c
             \<and> append_item (NodeType Paragraph) c = Inr (content_of ?doc ! i)"
      using c0 c1 a0 a1 by blast
  qed
  have r: "read ?vp ?src = Inr ?doc"
    using read_document [of ?vp ?src ?doc, THEN conjunct1] h1 h2 by blast
  have h3: "\<not> is_PythonBase (PyStr ''x'' :: unit pyobj)" by simp
  have h4: "has_type (Pyth Paragraph [] [] :: unit pyobj) (NodeType Paragraph)" by simp
  have c3: "convert ?vp (PyStr ''x'' :: unit pyobj) = Inr (PyStr ''x'')"
    by (rule read_document [THEN conjunct2, THEN conjunct2, THEN conjunct1, rule_format])
       (rule h3)
  have c4: "append_item (NodeType Paragraph) (Pyth Paragraph [] [] :: unit pyobj)
       = Inr (Pyth Paragraph [] [])"
    by (rule read_document [THEN conjunct2, THEN conjunct2, THEN conjunct2, THEN conjunct2,
          THEN conjunct2, THEN conjunct2, THEN conjunct2, THEN conjunct2, THEN conjunct2,
          THEN conjunct2, THEN conjunct2, THEN conjunct1, rule_format])
       (rule h4)
  show ?thesis
    by (intro conjI h1 r h3 c3 h4 c4)
qed

text \<open>
  The claim as stated has a source element that is not a markup object arrive in the
  document as itself. A string arrives wrapped in a text run inside a paragraph.
\<close>

theorem read_document_counterexample:
  "\<not> is_PythonBase (PyStr ''x'' :: unit pyobj)
   \<and> read (\<lambda>t. []) [PyStr ''x'' :: unit pyobj]
       = Inr (Document [Pyth Paragraph [] [Pyth Text [] [PyStr ''x'']]])
   \<and> content_of (Document [Pyth Paragraph [] [Pyth Text [] [PyStr ''x'' :: unit pyobj]]]) ! 0
       \<noteq> [PyStr ''x''] ! 0"
  by (simp add: read_def Document_new_def append_item.simps)

text \<open>
  Claim C10, as amended. \<open>p[item]\<close> with an \<^verbatim>\<open>int\<close> returns \<open>p.content[item]\<close> and leaves
  the content as it is. With a tuple or list it applies \<open>p[i]\<close> to each element in order,
  stopping at the first exception, and returns \<open>p\<close> (the empty tuple changes nothing; a
  tuple with a first element is \<open>p[first]\<close> followed by \<open>p[rest]\<close>): elements that are neither \<^verbatim>\<open>int\<close> nor tuple nor list are appended in order,
  nested tuples and lists are flattened, and an \<^verbatim>\<open>int\<close> element only indexes the content
  (raising \<^verbatim>\<open>IndexError\<close> out of range) and appends nothing. With any other item it
  appends the item and returns \<open>p\<close>, so two bracket applications append two children in order.
\<close>

theorem getitem_overloaded:
  "getitem content (PySeq []) = (content, Inr Self)
   \<and> getitem content (PySeq (x # items))
       = (case getitem content x of
            (content', Inl e) \<Rightarrow> (content', Inl e)
          | (content', Inr r) \<Rightarrow> getitem content' (PySeq items))
   \<and> getitem content (PyInt i)
     = (content, (case py_index content i of Inl e \<Rightarrow> Inl e | Inr x \<Rightarrow> Inr (Item x)))
   \<and> (0 \<le> i \<and> i < int (length content)
        \<longrightarrow> getitem content (PyInt i) = (content, Inr (Item (content ! nat i))))
   \<and> (list_all plain items \<longrightarrow> getitem content (PySeq items) = (content @ items, Inr Self))
   \<and> (list_all int_free items
        \<longrightarrow> getitem content (PySeq items) = (content @ concat (map leaves items), Inr Self))
   \<and> getitem content (PySeq (PyInt i # items))
       = (case py_index content i of
            Inl e \<Rightarrow> (content, Inl e)
          | Inr x \<Rightarrow> getitem content (PySeq items))
   \<and> (plain x \<longrightarrow> getitem content x = (content @ [x], Inr Self))
   \<and> (plain x \<and> plain y
        \<longrightarrow> getitem (fst (getitem content x)) y = (content @ [x, y], Inr Self))"
proof -
  have step: "getitem content (PySeq (x # items))
       = (case getitem content x of
            (content', Inl e) \<Rightarrow> (content', Inl e)
          | (content', Inr r) \<Rightarrow> getitem content' (PySeq items))"
    by (simp split: prod.splits sum.splits option.splits)
  have rest: "getitem content (PyInt i)
     = (content, (case py_index content i of Inl e \<Rightarrow> Inl e | Inr x \<Rightarrow> Inr (Item x)))
   \<and> (0 \<le> i \<and> i < int (length content)
        \<longrightarrow> getitem content (PyInt i) = (content, Inr (Item (content ! nat i))))
   \<and> (list_all plain items \<longrightarrow> getitem content (PySeq items) = (content @ items, Inr Self))
   \<and> (list_all int_free items
        \<longrightarrow> getitem content (PySeq items) = (content @ concat (map leaves items), Inr Self))
   \<and> getitem content (PySeq (PyInt i # items))
       = (case py_index content i of
            Inl e \<Rightarrow> (content, Inl e)
          | Inr x \<Rightarrow> getitem content (PySeq items))
   \<and> (plain x \<longrightarrow> getitem content x = (content @ [x], Inr Self))
   \<and> (plain x \<and> plain y
        \<longrightarrow> getitem (fst (getitem content x)) y = (content @ [x, y], Inr Self))"
    by (auto simp: getitem_plain getitem_each_plain getitem_int_free py_index_def
          split: sum.splits)
  have nil: "getitem content (PySeq []) = (content, Inr Self)"
    by simp
  from nil step rest show ?thesis
    by (intro conjI) blast+
qed

theorem getitem_overloaded_witness:
  "(0::int) \<le> 1 \<and> (1::int) < int (length [PyStr ''a'', PyStr ''b'' :: unit pyobj])
   \<and> getitem [PyStr ''a'', PyStr ''b'' :: unit pyobj] (PyInt 1)
       = ([PyStr ''a'', PyStr ''b''], Inr (Item (PyStr ''b'')))
   \<and> list_all plain [PyStr ''c'', Markup T [] [] :: unit pyobj]
   \<and> getitem [PyStr ''a''] (PySeq [PyStr ''c'', Markup T [] [] :: unit pyobj])
       = ([PyStr ''a'', PyStr ''c'', Markup T [] []], Inr Self)
   \<and> list_all int_free [PyStr ''c'', PySeq [PyStr ''d'' :: unit pyobj]]
   \<and> getitem [PyStr ''a''] (PySeq [PyStr ''c'', PySeq [PyStr ''d'' :: unit pyobj]])
       = ([PyStr ''a'', PyStr ''c'', PyStr ''d''], Inr Self)
   \<and> plain (PyStr ''x'' :: unit pyobj) \<and> plain (PyStr ''y'' :: unit pyobj)
   \<and> getitem [] (PyStr ''x'' :: unit pyobj) = ([PyStr ''x''], Inr Self)
   \<and> getitem (fst (getitem [] (PyStr ''x'' :: unit pyobj))) (PyStr ''y'')
       = ([PyStr ''x'', PyStr ''y''], Inr Self)"
proof -
  let ?ab = "[PyStr ''a'', PyStr ''b'' :: unit pyobj]"
  have h1: "(0::int) \<le> 1 \<and> (1::int) < int (length ?ab)" by simp
  have h2: "list_all plain [PyStr ''c'', Markup T [] [] :: unit pyobj]" by simp
  have h3: "list_all int_free [PyStr ''c'', PySeq [PyStr ''d'' :: unit pyobj]]" by simp
  have h4: "plain (PyStr ''x'' :: unit pyobj)" by simp
  have h5: "plain (PyStr ''y'' :: unit pyobj)" by simp
  have c1: "getitem ?ab (PyInt 1) = (?ab, Inr (Item (?ab ! nat 1)))"
    by (rule getitem_overloaded [THEN conjunct2, THEN conjunct2, THEN conjunct2, THEN conjunct1, rule_format]) (rule h1)
  have c2: "getitem [PyStr ''a''] (PySeq [PyStr ''c'', Markup T [] [] :: unit pyobj])
       = ([PyStr ''a''] @ [PyStr ''c'', Markup T [] []], Inr Self)"
    by (rule getitem_overloaded [THEN conjunct2, THEN conjunct2, THEN conjunct2, THEN conjunct2, THEN conjunct1, rule_format])
       (rule h2)
  have c3: "getitem [PyStr ''a''] (PySeq [PyStr ''c'', PySeq [PyStr ''d'' :: unit pyobj]])
       = ([PyStr ''a''] @ concat (map leaves [PyStr ''c'', PySeq [PyStr ''d'']]), Inr Self)"
    by (rule getitem_overloaded [THEN conjunct2, THEN conjunct2, THEN conjunct2, THEN conjunct2, THEN conjunct2, THEN conjunct1,
          rule_format]) (rule h3)
  have c4: "getitem [] (PyStr ''x'' :: unit pyobj) = ([] @ [PyStr ''x''], Inr Self)"
    by (rule getitem_overloaded [THEN conjunct2, THEN conjunct2, THEN conjunct2, THEN conjunct2, THEN conjunct2, THEN conjunct2,
          THEN conjunct2, THEN conjunct1, rule_format]) (rule h4)
  have c5: "getitem (fst (getitem [] (PyStr ''x'' :: unit pyobj))) (PyStr ''y'')
       = ([] @ [PyStr ''x'', PyStr ''y''], Inr Self)"
    by (rule getitem_overloaded [THEN conjunct2, THEN conjunct2, THEN conjunct2, THEN conjunct2, THEN conjunct2, THEN conjunct2,
          THEN conjunct2, THEN conjunct2, rule_format]) (intro conjI h4 h5)
  from h1 have h1a: "(0::int) \<le> 1" and h1b: "(1::int) < int (length ?ab)" by simp_all
  from h4 h5 c1 c2 c3 c4 c5 show ?thesis
    by (simp only: h1a h1b h2 h3) simp
qed

text \<open>
  The claim as stated has every element of a tuple appended. The \<^verbatim>\<open>int\<close> element 0 of the
  tuple \<^verbatim>\<open>("a", 0)\<close> is looked up instead, so one child is appended, not two.
\<close>

theorem getitem_tuple_counterexample:
  "getitem [] (PySeq [PyStr ''a'', PyInt 0 :: unit pyobj]) = ([PyStr ''a''], Inr Self)
   \<and> getitem [] (PySeq [PyStr ''a'', PyInt 0 :: unit pyobj])
       \<noteq> ([] @ [PyStr ''a'', PyInt 0], Inr Self)"
  by (simp add: py_index_def)

section \<open>Properties of the plaintext writer\<close>

lemma swrite_swrite: "swrite (swrite st a) b = swrite st (a @ b)"
proof (cases "a = []")
  case True
  then show ?thesis by (simp add: swrite_def)
next
  case False
  show ?thesis
  proof (cases "b = []")
    case True
    then show ?thesis by (simp add: swrite_def)
  next
    case bne: False
    define p where "p = buf st @ replicate (pos st - length (buf st)) (CHR 0x00)"
    have lp: "pos st \<le> length p" by (simp add: p_def)
    have A: "swrite st a = \<lparr>buf = take (pos st) p @ a @ drop (pos st + length a) p, pos = pos st + length a\<rparr>"
      using False by (simp add: swrite_def p_def Let_def)
    have len: "length (take (pos st) p) = pos st" using lp by simp
    show ?thesis
      using False bne lp
      by (simp add: A) (simp add: swrite_def Let_def p_def [symmetric] len min_absorb2 ac_simps)
  qed
qed

lemma str_join_strs: "str_join (map PyStr ss) = Inr (concat ss)"
  by (induction ss) simp_all

lemma collect_texts_mk: "collect_texts (map mk_text ts) = Inr (map (\<lambda>t. concat (snd t)) ts)"
  by (induction ts) (simp_all add: mk_text_def str_join_strs)

lemma write_lines_top:
  "indent w = - 1 \<Longrightarrow>
   write_lines w [] ls = w\<lparr>target := swrite (target w) (concat (map (\<lambda>l. l @ newline w) ls))\<rparr>"
proof (induction ls arbitrary: w)
  case Nil
  then show ?case by (simp add: swrite_def)
next
  case (Cons l ls)
  show ?case
    using Cons.prems by (simp add: Cons.IH swrite_swrite indent_str_def)
qed

lemma handler_paragraph:
  "indent w = - 1 \<Longrightarrow>
   handler w (mk_paragraph p) [] =
     Inr (w\<lparr>target := swrite (target w) (spec_paragraph (newline w) (runs_of p))\<rparr>)"
  by (simp add: mk_paragraph_def paragraph_def collect_texts_mk write_lines_top
        spec_paragraph_def runs_of_def)

lemma go_loop_paragraphs:
  "indent w = - 1 \<Longrightarrow> np = i + length ps \<Longrightarrow>
   go_loop w np i (map mk_paragraph ps) =
     Inr (w\<lparr>target := swrite (target w) (spec_join (newline w) (map (\<lambda>p. spec_paragraph (newline w) (runs_of p)) ps))\<rparr>)"
proof (induction ps arbitrary: w i)
  case Nil
  then show ?case by (simp add: swrite_def)
next
  case (Cons p ps)
  show ?case
  proof (cases ps)
    case Nil
    with Cons.prems show ?thesis by (simp add: handler_paragraph)
  next
    case (Cons q qs)
    define w1 where
      "w1 = w\<lparr>target := swrite (target w) (spec_paragraph (newline w) (runs_of p) @ newline w)\<rparr>"
    have i1: "indent w1 = - 1" and n1: "newline w1 = newline w"
      using Cons.prems by (simp_all add: w1_def)
    have step: "go_loop w np i (map mk_paragraph (p # ps)) = go_loop w1 np (i + 1) (map mk_paragraph ps)"
      using Cons.prems Cons by (simp add: handler_paragraph swrite_swrite w1_def)
    have rest: "go_loop w1 np (i + 1) (map mk_paragraph ps) =
        Inr (w1\<lparr>target := swrite (target w1)
          (spec_join (newline w1) (map (\<lambda>p. spec_paragraph (newline w1) (runs_of p)) ps))\<rparr>)"
      using Cons.prems by (intro Cons.IH i1) simp
    show ?thesis
      unfolding step rest n1
      by (simp add: w1_def swrite_swrite Cons)
  qed
qed

lemma write_paragraphs:
  "PlaintextWriter_write (Document (map mk_paragraph ps)) target_opt nl =
     Inr (seek (truncate_stream (swrite (case target_opt of None \<Rightarrow> StringIO | Some t \<Rightarrow> t)
            (spec_document nl (map runs_of ps)))) 0)"
  by (simp add: PlaintextWriter_write_def go_def go_loop_paragraphs spec_document_def comp_def)

lemma fresh_stream: "seek (truncate_stream (swrite StringIO s)) 0 = \<lparr>buf = s, pos = 0\<rparr>"
  by (simp add: seek_def truncate_stream_def swrite_def StringIO_def)

lemma given_stream:
  "pos t \<le> length (buf t) \<Longrightarrow>
   seek (truncate_stream (swrite t s)) 0 = \<lparr>buf = take (pos t) (buf t) @ s, pos = 0\<rparr>"
  by (cases "s = []") (auto simp: seek_def truncate_stream_def swrite_def Let_def min_absorb2)

text \<open>
  Claim C7. For a document whose top-level content is a sequence of paragraphs of text
  runs, \<open>write\<close> returns the target at offset 0, holding (from the target's position on,
  and at the very start for a fresh target) the renderings of the paragraphs, each the lines
  of its concatenated text runs with the newline string after every line, and one more
  newline string between two neighbouring paragraphs and none after the last.
\<close>

theorem PlaintextWriter_write_paragraphs:
  "PlaintextWriter_write (Document (map mk_paragraph ps)) None nl
     = Inr \<lparr>buf = spec_document nl (map runs_of ps), pos = 0\<rparr>
   \<and> (\<exists>st. PlaintextWriter_write (Document (map mk_paragraph ps)) (Some t) nl = Inr st
          \<and> pos st = 0
          \<and> (pos t \<le> length (buf t)
               \<longrightarrow> buf st = take (pos t) (buf t) @ spec_document nl (map runs_of ps)))
   \<and> spec_paragraph nl runs = concat (map (\<lambda>line. line @ nl) (splitlines (concat runs)))
   \<and> spec_document nl [] = []
   \<and> spec_document nl [runs] = spec_paragraph nl runs
   \<and> spec_document nl (runs # runs' # rest)
       = spec_paragraph nl runs @ nl @ spec_document nl (runs' # rest)"
proof -
  have "PlaintextWriter_write (Document (map mk_paragraph ps)) None nl
     = Inr \<lparr>buf = spec_document nl (map runs_of ps), pos = 0\<rparr>"
    by (simp add: write_paragraphs fresh_stream)
  moreover have "\<exists>st. PlaintextWriter_write (Document (map mk_paragraph ps)) (Some t) nl = Inr st
          \<and> pos st = 0
          \<and> (pos t \<le> length (buf t)
               \<longrightarrow> buf st = take (pos t) (buf t) @ spec_document nl (map runs_of ps))"
    by (simp add: write_paragraphs given_stream) (simp add: seek_def)
  ultimately show ?thesis
    by (simp add: spec_paragraph_def spec_document_def)
qed

theorem PlaintextWriter_write_paragraphs_witness:
  "pos \<lparr>buf = ''xyz'', pos = 1\<rparr> \<le> length (buf \<lparr>buf = ''xyz'', pos = 1\<rparr>)
   \<and> PlaintextWriter_write
        (Document (map mk_paragraph
           [([], [([], [''ab'', ''c\<newline>d''])]), ([], [([], [''e''])]) :: (string \<times> unit) list \<times> _]))
        (Some \<lparr>buf = ''xyz'', pos = 1\<rparr>) ''\<newline>''
      = Inr \<lparr>buf = ''xabc\<newline>d\<newline>\<newline>e\<newline>'', pos = 0\<rparr>"
proof -
  let ?ps = "[([], [([], [''ab'', ''c\<newline>d''])]), ([], [([], [''e''])]) :: (string \<times> unit) list \<times> _]"
  let ?t = "\<lparr>buf = ''xyz'', pos = 1\<rparr>"
  have h: "pos ?t \<le> length (buf ?t)" by simp
  obtain st where st: "PlaintextWriter_write (Document (map mk_paragraph ?ps)) (Some ?t) ''\<newline>'' = Inr st"
      "pos st = 0"
      "pos ?t \<le> length (buf ?t) \<longrightarrow> buf st = take (pos ?t) (buf ?t) @ spec_document ''\<newline>'' (map runs_of ?ps)"
    using PlaintextWriter_write_paragraphs [of ?ps "''\<newline>''" ?t] by blast
  have sd: "spec_document ''\<newline>'' (map runs_of ?ps) = ''abc\<newline>d\<newline>\<newline>e\<newline>''"
    by (simp add: spec_document_def spec_paragraph_def runs_of_def splitlines_def is_linebreak_def)
  from st(3) h have "buf st = take (pos ?t) (buf ?t) @ spec_document ''\<newline>'' (map runs_of ?ps)"
    by blast
  then have "buf st = ''xabc\<newline>d\<newline>\<newline>e\<newline>''"
    unfolding sd by simp
  with st(2) have "st = \<lparr>buf = ''xabc\<newline>d\<newline>\<newline>e\<newline>'', pos = 0\<rparr>"
    by (cases st) simp
  with st(1) h show ?thesis by simp
qed

section \<open>Properties of axis matching\<close>

lemma move_entry_length: "s < length xs \<Longrightarrow> d < length xs \<Longrightarrow> length (move_entry s d xs) = length xs"
  by (auto simp: move_entry_def insert_at_def remove_at_def)

lemma move_entry_inverse:
  assumes "s < length xs" and "d < length xs"
  shows "move_entry d s (move_entry s d xs) = xs"
proof -
  define ys where "ys = remove_at s xs"
  have ly: "length ys = length xs - 1"
    using assms(1) by (auto simp: ys_def remove_at_def)
  have d: "d \<le> length ys" using assms(2) ly by simp
  define zs where "zs = take d ys @ (xs ! s) # drop d ys"
  have lt: "length (take d ys) = d" using d by simp
  have z_d: "zs ! d = xs ! s"
    using nth_append_length [of "take d ys" "xs ! s" "drop d ys"] lt by (simp add: zs_def)
  have t: "take d zs = take d ys"
    using lt by (simp add: zs_def)
  have dr: "drop (Suc d) zs = drop d ys"
    using lt by (simp add: zs_def)
  have rem: "remove_at d zs = ys"
    by (simp add: remove_at_def t dr)
  have ts: "take s ys = take s xs"
    using assms(1) by (simp add: ys_def remove_at_def)
  have ds: "drop s ys = drop (Suc s) xs"
    using assms(1) by (simp add: ys_def remove_at_def)
  have "move_entry d s zs = take s ys @ (xs ! s) # drop s ys"
    by (simp add: move_entry_def insert_at_def rem z_d)
  also have "\<dots> = xs"
    using assms(1) by (simp add: ts ds id_take_nth_drop [symmetric])
  finally show ?thesis
    by (simp add: move_entry_def [of s d xs] insert_at_def ys_def [symmetric] zs_def [symmetric])
qed

lemma indices_length: "idx \<in> set (indices sh) \<Longrightarrow> length idx = length sh"
  by (auto simp: indices_def dest: in_set_product_lists_length)

lemma canonicalize_axis_valid:
  "valid_axis axis n \<Longrightarrow> \<exists>k. canonicalize_axis axis n = Inr k \<and> k < n"
  by (auto simp: valid_axis_def canonicalize_axis_def)

lemma moveaxis_round_trip:
  assumes "valid_axis src (length (shape a))" and "valid_axis dst (length (shape a))"
  shows "\<exists>b c. moveaxis a src dst = Inr b \<and> moveaxis b dst src = Inr c \<and> array_equal c a"
proof (cases "src = dst")
  case True
  then show ?thesis
    by (simp add: moveaxis_def array_equal_def list_all_iff)
next
  case False
  obtain s where s: "canonicalize_axis src (length (shape a)) = Inr s" "s < length (shape a)"
    using canonicalize_axis_valid [OF assms(1)] by blast
  obtain d where d: "canonicalize_axis dst (length (shape a)) = Inr d" "d < length (shape a)"
    using canonicalize_axis_valid [OF assms(2)] by blast
  define b where "b = \<lparr>shape = move_entry s d (shape a), elem = (\<lambda>idx. elem a (move_entry d s idx))\<rparr>"
  define c where "c = \<lparr>shape = move_entry d s (shape b), elem = (\<lambda>idx. elem b (move_entry s d idx))\<rparr>"
  have lb: "length (shape b) = length (shape a)"
    using s(2) d(2) by (simp add: b_def move_entry_length)
  have m1: "moveaxis a src dst = Inr b"
    using False s(1) d(1) by (simp add: moveaxis_def err_bind_def b_def)
  have m2: "moveaxis b dst src = Inr c"
    using False s(1) d(1) by (simp add: moveaxis_def err_bind_def c_def lb)
  have sc: "shape c = shape a"
    using s(2) d(2) by (simp add: c_def b_def move_entry_inverse)
  have el: "elem c idx = elem a idx" if "idx \<in> set (indices (shape a))" for idx
  proof -
    from that have "length idx = length (shape a)" by (rule indices_length)
    with s(2) d(2) have "move_entry d s (move_entry s d idx) = idx"
      by (simp add: move_entry_inverse)
    then show ?thesis by (simp add: c_def b_def)
  qed
  have "array_equal c a"
    by (simp add: array_equal_def sc list_all_iff el)
  with m1 m2 show ?thesis by blast
qed

text \<open>
  Claim C5. For an array \<open>x\<close> whose abstract value is not the unit value (no array has the
  unit for its abstract value), \<open>matchaxis\<close> with two equal axes returns \<open>x\<close> itself; and
  for integer axis positions \<open>src\<close> and \<open>dst\<close> valid for the rank of \<open>x\<close>, \<open>matchaxis\<close> from
  \<open>src\<close> to \<open>dst\<close> and then from \<open>dst\<close> to \<open>src\<close> succeeds both times and returns an array
  equal to \<open>x\<close>.
\<close>

theorem matchaxis_round_trip:
  "(\<forall>b. h b \<noteq> AbstractUnit) \<longrightarrow>
     matchaxis ops h name sz ax ax (ArrayV a) sum_match = Inr (ArrayV a)
     \<and> (valid_axis src (length (shape a)) \<and> valid_axis dst (length (shape a)) \<longrightarrow>
          (\<exists>b c. matchaxis ops h name sz (Some src) (Some dst) (ArrayV a) sum_match = Inr (ArrayV b)
                \<and> matchaxis ops h name sz (Some dst) (Some src) (ArrayV b) sum_match = Inr (ArrayV c)
                \<and> array_equal c a))"
proof (intro impI conjI)
  assume h: "\<forall>b. h b \<noteq> AbstractUnit"
  then show "matchaxis ops h name sz ax ax (ArrayV a) sum_match = Inr (ArrayV a)"
    by (simp add: matchaxis_def)
next
  assume h: "\<forall>b. h b \<noteq> AbstractUnit"
  assume v: "valid_axis src (length (shape a)) \<and> valid_axis dst (length (shape a))"
  then obtain b c where m: "moveaxis a src dst = Inr b" "moveaxis b dst src = Inr c" "array_equal c a"
    using moveaxis_round_trip [of src a dst] by blast
  have id1: "src = dst \<Longrightarrow> b = a" and id2: "src = dst \<Longrightarrow> c = b"
    using m by (simp_all add: moveaxis_def)
  have "matchaxis ops h name sz (Some src) (Some dst) (ArrayV a) sum_match = Inr (ArrayV b)"
    using h m(1) id1 by (simp add: matchaxis_def err_bind_def)
  moreover have "matchaxis ops h name sz (Some dst) (Some src) (ArrayV b) sum_match = Inr (ArrayV c)"
    using h m(2) id2 by (simp add: matchaxis_def err_bind_def)
  ultimately show "\<exists>b c. matchaxis ops h name sz (Some src) (Some dst) (ArrayV a) sum_match = Inr (ArrayV b)
                \<and> matchaxis ops h name sz (Some dst) (Some src) (ArrayV b) sum_match = Inr (ArrayV c)
                \<and> array_equal c a"
    using m(3) by blast
qed

theorem matchaxis_round_trip_witness:
  "(\<forall>b :: nat ndarray. ShapedArray (map int (shape b)) ''int32'' False [] \<noteq> AbstractUnit)
   \<and> valid_axis 0 (length (shape \<lparr>shape = [2, 3], elem = (\<lambda>idx. idx ! 0 * 3 + idx ! 1)\<rparr>))
   \<and> valid_axis (- 1) (length (shape \<lparr>shape = [2, 3], elem = (\<lambda>idx. idx ! 0 * 3 + idx ! 1)\<rparr>))
   \<and> matchaxis \<lparr>broadcast_in_dim = (\<lambda>a s d. Inl NotImplementedError),
                  array_sum = (\<lambda>a s. Inl NotImplementedError)\<rparr>
         (\<lambda>b. ShapedArray (map int (shape b)) ''int32'' False []) NoAxisName 4 (Some 0) (Some 0)
         (ArrayV \<lparr>shape = [2, 3], elem = (\<lambda>idx. idx ! 0 * 3 + idx ! 1)\<rparr>) False
       = Inr (ArrayV \<lparr>shape = [2, 3], elem = (\<lambda>idx. idx ! 0 * 3 + idx ! 1)\<rparr>)
   \<and> (\<exists>b c.
         matchaxis \<lparr>broadcast_in_dim = (\<lambda>a s d. Inl NotImplementedError),
                    array_sum = (\<lambda>a s. Inl NotImplementedError)\<rparr>
           (\<lambda>b. ShapedArray (map int (shape b)) ''int32'' False []) NoAxisName 4 (Some 0) (Some (- 1))
           (ArrayV \<lparr>shape = [2, 3], elem = (\<lambda>idx. idx ! 0 * 3 + idx ! 1)\<rparr>) False
         = Inr (ArrayV b)
       \<and> matchaxis \<lparr>broadcast_in_dim = (\<lambda>a s d. Inl NotImplementedError),
                      array_sum = (\<lambda>a s. Inl NotImplementedError)\<rparr>
           (\<lambda>b. ShapedArray (map int (shape b)) ''int32'' False []) NoAxisName 4 (Some (- 1)) (Some 0)
           (ArrayV b) False
         = Inr (ArrayV c)
       \<and> array_equal c \<lparr>shape = [2, 3], elem = (\<lambda>idx. idx ! 0 * 3 + idx ! 1)\<rparr>)"
proof -
  let ?a = "\<lparr>shape = [2, 3], elem = (\<lambda>idx. idx ! 0 * 3 + idx ! 1)\<rparr> :: nat ndarray"
  let ?h = "\<lambda>b :: nat ndarray. ShapedArray (map int (shape b)) ''int32'' False []"
  let ?ops = "\<lparr>broadcast_in_dim = (\<lambda>a s d. Inl NotImplementedError),
               array_sum = (\<lambda>a s. Inl NotImplementedError)\<rparr> :: nat array_ops"
  have h1: "\<forall>b. ?h b \<noteq> AbstractUnit" by simp
  have h2: "valid_axis 0 (length (shape ?a))" by (simp add: valid_axis_def)
  have h3: "valid_axis (- 1) (length (shape ?a))" by (simp add: valid_axis_def)
  note t = matchaxis_round_trip [of ?h ?ops NoAxisName 4 _ ?a False 0 "- 1", THEN mp, OF h1]
  have c1: "matchaxis ?ops ?h NoAxisName 4 (Some 0) (Some 0) (ArrayV ?a) False = Inr (ArrayV ?a)"
    by (rule t [THEN conjunct1])
  have c2: "\<exists>b c. matchaxis ?ops ?h NoAxisName 4 (Some 0) (Some (- 1)) (ArrayV ?a) False = Inr (ArrayV b)
       \<and> matchaxis ?ops ?h NoAxisName 4 (Some (- 1)) (Some 0) (ArrayV b) False = Inr (ArrayV c)
       \<and> array_equal c ?a"
    by (rule t [THEN conjunct2, rule_format]) (intro conjI h2 h3)
  show ?thesis
    by (intro conjI h1 h2 h3 c1 c2)
qed

end
